theory Spec2Isabelle
  imports Main
begin

section \<open>JavaScript values used by the renderer\<close>

text \<open>
  A property read from the provider's JSON is either absent (\<open>undefined\<close>), JSON
  \<open>null\<close>, or a value. Optional chaining (\<open>m.score?.fullTime?.home\<close>) yields
  \<open>undefined\<close> when a link of the chain is missing, so a chain is flattened into one field.
\<close>

datatype 'a field = Undefined | Null | Val 'a

text \<open>\<open>x == null\<close> holds for \<open>undefined\<close> and for \<open>null\<close>.\<close>

fun nullish :: "'a field \<Rightarrow> bool" where
  "nullish Undefined = True"
| "nullish Null = True"
| "nullish (Val _) = False"

text \<open>
  Number-to-string conversion of an integer (property keys and template literals):
  decimal digits, with a leading minus sign for a negative number.
\<close>

definition digit_char :: "nat \<Rightarrow> char" where
  "digit_char d = ''0123456789'' ! d"

fun digits :: "nat \<Rightarrow> string" where
  "digits n = (if n < 10 then [digit_char n] else digits (n div 10) @ [digit_char (n mod 10)])"

declare digits.simps [simp del]

definition show_int :: "int \<Rightarrow> string" where
  "show_int i = (if i < 0 then CHR ''-'' # digits (nat (- i)) else digits (nat i))"

text \<open>
  String conversion of a string-valued property, as a template literal and a property
  key perform it: \<open>undefined\<close> becomes \<open>"undefined"\<close> and \<open>null\<close> becomes \<open>"null"\<close>.
\<close>

fun to_string :: "string field \<Rightarrow> string" where
  "to_string Undefined = ''undefined''"
| "to_string Null = ''null''"
| "to_string (Val s) = s"

text \<open>\<open>x || d\<close> on a string-valued property: the empty string is falsy too.\<close>

fun or_else :: "string field \<Rightarrow> string \<Rightarrow> string" where
  "or_else (Val s) d = (if s \<noteq> [] then s else d)"
| "or_else _ d = d"

subsection \<open>Plain objects used as dictionaries\<close>

text \<open>
  \<open>STATUS_MAP\<close>, \<open>lastKnownScores\<close> and \<open>lastKnownStatus\<close> are object literals, so a
  property read \<open>obj[key]\<close> that finds no own property continues along the prototype
  chain and returns the member of \<open>Object.prototype\<close> of that name when there is one.
  These are the names every such object inherits.
\<close>

definition object_prototype_keys :: "string list" where
  "object_prototype_keys =
     [''constructor'', ''toString'', ''toLocaleString'', ''valueOf'', ''hasOwnProperty'',
      ''isPrototypeOf'', ''propertyIsEnumerable'', ''__proto__'', ''__defineGetter__'',
      ''__defineSetter__'', ''__lookupGetter__'', ''__lookupSetter__'']"

datatype 'a looked = Absent | Own 'a | Inherited string

definition js_get :: "(string \<rightharpoonup> 'a) \<Rightarrow> string \<Rightarrow> 'a looked" where
  "js_get obj k =
     (case obj k of
        Some v \<Rightarrow> Own v
      | None \<Rightarrow> if k \<in> set object_prototype_keys then Inherited k else Absent)"

section \<open>Status normalisation\<close>

text \<open>
  A status held by the program is a string, or (when the lookup in \<open>STATUS_MAP\<close> fell
  through to the prototype) the inherited member of \<open>Object.prototype\<close> of the given
  name, which is a function or an object and never a string.
\<close>

datatype status_val = SStr string | SProto string

fun truthy_status :: "status_val \<Rightarrow> bool" where
  "truthy_status (SStr s) = (s \<noteq> [])"
| "truthy_status (SProto _) = True"

definition STATUS_MAP :: "string \<rightharpoonup> string" where
  "STATUS_MAP = map_of
     [(''IN_PLAY'', ''LIVE''), (''PAUSED'', ''HT''), (''FINISHED'', ''FT''),
      (''POSTPONED'', ''PST''), (''CANCELED'', ''CANC''), (''SUSPENDED'', ''SUSP'')]"

text \<open>\<open>STATUS_MAP[status] || 'NS'\<close>.\<close>

definition mapFDStatusToShort :: "string field \<Rightarrow> status_val" where
  "mapFDStatusToShort status =
     (case js_get STATUS_MAP (to_string status) of
        Own v \<Rightarrow> if v \<noteq> [] then SStr v else SStr ''NS''
      | Inherited k \<Rightarrow> SProto k
      | Absent \<Rightarrow> SStr ''NS'')"

text \<open>
  The canonical vocabulary in the program's own codes, the keys of \<open>STATUS_CLASS\<close> in
  \<open>displayMatches\<close>: \<open>NS\<close> (scheduled), \<open>LIVE\<close>, \<open>HT\<close> (half time), \<open>FT\<close> (full time),
  \<open>PST\<close> (postponed), \<open>CANC\<close> (cancelled), \<open>SUSP\<close> (suspended).
\<close>

definition canonical_codes :: "string list" where
  "canonical_codes = [''LIVE'', ''HT'', ''FT'', ''PST'', ''CANC'', ''SUSP'', ''NS'']"

fun canonical_status :: "status_val \<Rightarrow> bool" where
  "canonical_status (SStr s) = (s \<in> set canonical_codes)"
| "canonical_status (SProto _) = False"

section \<open>Provider matches and displayed matches\<close>

record team =
  team_id :: "int field"
  team_name :: "string field"
  team_crest :: "string field"

text \<open>
  A match of the provider's response. \<open>m_score_home\<close> is \<open>m.score?.fullTime?.home\<close> and
  \<open>m_competition_name\<close> is \<open>m.competition?.name\<close>.
\<close>

record raw_match =
  m_id :: "int field"
  m_homeTeam :: "team field"
  m_awayTeam :: "team field"
  m_score_home :: "int field"
  m_score_away :: "int field"
  m_status :: "string field"
  m_utcDate :: "string field"
  m_competition_name :: "string field"

text \<open>
  A displayed goal count: a number, the unknown marker \<open>'-'\<close>, or \<open>undefined\<close> (what
  destructuring an object without the two score properties would give).
\<close>

datatype goal = Num int | Dash | GUndefined

record match =
  league_name :: string
  home_name :: string
  home_logo :: string
  away_name :: string
  away_logo :: string
  goals_home :: goal
  goals_away :: goal
  fixture_date :: "string field"
  status_short :: status_val

text \<open>\<open>m.homeTeam?.id || m.homeTeam?.name\<close>, converted to a string by the template literal.\<close>

fun team_key :: "team field \<Rightarrow> string" where
  "team_key (Val t) =
     (case team_id t of
        Val n \<Rightarrow> if n \<noteq> 0 then show_int n else to_string (team_name t)
      | _ \<Rightarrow> to_string (team_name t))"
| "team_key _ = ''undefined''"

text \<open>
  \<open>m.id || `${...}-${...}`\<close>, as the property key it is used as: a numeric id is
  converted to its decimal string.
\<close>

definition matchId :: "raw_match \<Rightarrow> string" where
  "matchId m =
     (let composite = team_key (m_homeTeam m) @ ''-'' @ team_key (m_awayTeam m) in
      case m_id m of
        Val n \<Rightarrow> if n \<noteq> 0 then show_int n else composite
      | _ \<Rightarrow> composite)"

fun team_name_of :: "team field \<Rightarrow> string field" where
  "team_name_of (Val t) = team_name t"
| "team_name_of _ = Undefined"

fun team_crest_of :: "team field \<Rightarrow> string field" where
  "team_crest_of (Val t) = team_crest t"
| "team_crest_of _ = Undefined"

section \<open>Module state of the renderer\<close>

text \<open>
  The module-level variables read or written by \<open>loadTodaysMatches\<close> and
  \<open>resetDailyState\<close>. The two last-known objects map a match id to the last score pair
  and the last status the provider reported.
\<close>

record app_state =
  isLoading :: bool
  lastFetchTime :: int
  cachedMatches :: "match list"
  cachedDate :: string
  lastKnownScores :: "string \<rightharpoonup> int \<times> int"
  lastKnownStatus :: "string \<rightharpoonup> status_val"
  activeLeagues :: "string set"

text \<open>\<open>Object.entries(leagues)\<close>: the configured leagues in insertion order.\<close>

definition leagues :: "(string \<times> nat) list" where
  "leagues = [(''PL'', 2021), (''BL1'', 2002), (''CL'', 2001), (''PD'', 2014)]"

definition resetDailyState :: "app_state \<Rightarrow> app_state" where
  "resetDailyState st =
     st\<lparr>cachedMatches := [], cachedDate := [], lastFetchTime := 0,
        activeLeagues := set (map fst leagues)\<rparr>"

definition CACHE_DURATION :: int where
  "CACHE_DURATION = 120000"

definition hasLiveMatches :: "match list \<Rightarrow> bool" where
  "hasLiveMatches matches =
     list_ex (\<lambda>m. status_short m = SStr ''LIVE'' \<or> status_short m = SStr ''HT'') matches"

section \<open>Reconciliation against the last known facts\<close>

text \<open>
  Lines 252 to 260 of the callback: when a score is missing, the pair stored under the
  match id is used if the lookup is truthy, and \<open>'-'\<close> for both otherwise; when both
  scores are present (the first equation) they are used and stored.
\<close>

fun reconcile_scores ::
  "int field \<Rightarrow> int field \<Rightarrow> string \<Rightarrow> (string \<rightharpoonup> int \<times> int) \<Rightarrow>
   (goal \<times> goal) \<times> (string \<rightharpoonup> int \<times> int)" where
  "reconcile_scores (Val h) (Val a) mid lk = ((Num h, Num a), lk(mid \<mapsto> (h, a)))"
| "reconcile_scores _ _ mid lk =
     (case js_get lk mid of
        Own (h, a) \<Rightarrow> ((Num h, Num a), lk)
      | Inherited _ \<Rightarrow> ((GUndefined, GUndefined), lk)
      | Absent \<Rightarrow> ((Dash, Dash), lk))"

text \<open>
  Lines 262 to 268: a falsy or \<open>'NS'\<close> status is replaced by the stored status when the
  lookup is truthy, and nothing is stored; any other status is stored.
\<close>

definition reconcile_status ::
  "status_val \<Rightarrow> string \<Rightarrow> (string \<rightharpoonup> status_val) \<Rightarrow> status_val \<times> (string \<rightharpoonup> status_val)" where
  "reconcile_status currentStatus mid lk =
     (if \<not> truthy_status currentStatus \<or> currentStatus = SStr ''NS'' then
        (case js_get lk mid of
           Own v \<Rightarrow> if truthy_status v then (v, lk) else (currentStatus, lk)
         | Inherited k \<Rightarrow> (SProto k, lk)
         | Absent \<Rightarrow> (currentStatus, lk))
      else (currentStatus, lk(mid \<mapsto> currentStatus)))"

text \<open>The callback of \<open>fdMatches.map\<close>: the displayed match and the updated state.\<close>

definition normalize :: "string \<Rightarrow> raw_match \<Rightarrow> app_state \<Rightarrow> match \<times> app_state" where
  "normalize leagueName m st =
     (let mid = matchId m;
          currentStatus = mapFDStatusToShort (m_status m);
          ((homeScore, awayScore), scores) =
             reconcile_scores (m_score_home m) (m_score_away m) mid (lastKnownScores st);
          (status, statuses) = reconcile_status currentStatus mid (lastKnownStatus st)
      in (\<lparr>league_name = or_else (m_competition_name m) leagueName,
           home_name = or_else (team_name_of (m_homeTeam m)) ''Unknown'',
           home_logo = or_else (team_crest_of (m_homeTeam m)) [],
           away_name = or_else (team_name_of (m_awayTeam m)) ''Unknown'',
           away_logo = or_else (team_crest_of (m_awayTeam m)) [],
           goals_home = homeScore,
           goals_away = awayScore,
           fixture_date = m_utcDate m,
           status_short = status\<rparr>,
          st\<lparr>lastKnownScores := scores, lastKnownStatus := statuses\<rparr>))"

text \<open>\<open>fdMatches.map(...)\<close>: the callback runs on the matches in order, on the state the
  previous call left.\<close>

fun normalize_all :: "string \<Rightarrow> raw_match list \<Rightarrow> app_state \<Rightarrow> match list \<times> app_state" where
  "normalize_all leagueName [] st = ([], st)"
| "normalize_all leagueName (m # ms) st =
     (let (x, st1) = normalize leagueName m st;
          (xs, st2) = normalize_all leagueName ms st1
      in (x # xs, st2))"

section \<open>The world outside the program\<close>

text \<open>
  What a response of the provider can be for the program: \<open>fetch\<close> rejects, or it
  gives a status code and a body. Reading the body (\<open>res.json()\<close>, then \<open>data.matches\<close>)
  throws, or gives the \<open>matches\<close> property: an array of matches (\<open>Some\<close>) or anything
  that is not an array (\<open>None\<close>).
\<close>

datatype body = JsonThrows | Json "raw_match list option"

datatype response = FetchThrows | Response nat body

text \<open>
  The clock, the date library and the transport. \<open>parse_date\<close> is \<open>new Date(s)\<close> on a
  string, in milliseconds since the epoch (\<open>None\<close> for an invalid date); \<open>london_ymd\<close> is
  the \<open>en-CA\<close> format in the \<open>Europe/London\<close> zone. Every reading of the clock has a
  field of its own.
\<close>

record env =
  parse_date :: "string \<Rightarrow> int option"
  london_ymd :: "int \<Rightarrow> string"
  fetch :: "string \<Rightarrow> response"
  clock_today :: int
  clock_tomorrow :: int
  clock_now :: int
  clock_tick_today :: int
  clock_tick_now :: int
  clock_schedule_now :: int

datatype js_error = NetworkError | JsonError | RangeError

datatype event =
    Fetch string
  | HideNoMatches
  | ShowNoMatches
  | Display "match list"
  | UpdateLastUpdated
  | UpdateDateTime

text \<open>\<open>new Date(x)\<close>: \<open>null\<close> is the epoch, \<open>undefined\<close> is an invalid date.\<close>

fun date_of :: "env \<Rightarrow> string field \<Rightarrow> int option" where
  "date_of e (Val s) = parse_date e s"
| "date_of e Null = Some 0"
| "date_of e Undefined = None"

text \<open>\<open>londonYMD(new Date(x))\<close>: formatting an invalid date throws a \<open>RangeError\<close>.\<close>

definition londonYMD :: "env \<Rightarrow> string field \<Rightarrow> js_error + string" where
  "londonYMD e x = (case date_of e x of None \<Rightarrow> Inl RangeError | Some t \<Rightarrow> Inr (london_ymd e t))"

definition todayLondonISO :: "env \<Rightarrow> string" where
  "todayLondonISO e = london_ymd e (clock_today e)"

definition tomorrowLondonISO :: "env \<Rightarrow> string" where
  "tomorrowLondonISO e = london_ymd e (clock_tomorrow e + 36 * 60 * 60 * 1000)"

definition url :: "nat \<Rightarrow> string \<Rightarrow> string \<Rightarrow> string" where
  "url leagueCode today tomorrow =
     ''https://api.football-data.org/v4/matches?competitions='' @ show_int (int leagueCode)
       @ ''&dateFrom='' @ today @ ''&dateTo='' @ tomorrow"

definition res_ok :: "nat \<Rightarrow> bool" where
  "res_ok status = (200 \<le> status \<and> status \<le> 299)"

section \<open>The fetch loop of loadTodaysMatches\<close>

record batch =
  totalMatches :: nat
  allMatches :: "match list"
  hasRateLimit :: bool

text \<open>
  \<open>raw.filter(m => londonYMD(new Date(m.utcDate)) === today)\<close>: the first match with an
  invalid date makes the whole filter throw.
\<close>

fun filter_today :: "env \<Rightarrow> string \<Rightarrow> raw_match list \<Rightarrow> js_error + raw_match list" where
  "filter_today e today [] = Inr []"
| "filter_today e today (m # ms) =
     (case londonYMD e (m_utcDate m) of
        Inl x \<Rightarrow> Inl x
      | Inr d \<Rightarrow>
          (case filter_today e today ms of
             Inl x \<Rightarrow> Inl x
           | Inr r \<Rightarrow> Inr (if d = today then m # r else r)))"

text \<open>
  The body of the \<open>try\<close> block for one league (lines 219 to 291). \<open>Inl\<close> is an exception
  thrown inside it; every throw happens before the first write to the state.
\<close>

definition league_body ::
  "env \<Rightarrow> string \<Rightarrow> string \<Rightarrow> string \<times> nat \<Rightarrow> batch \<times> app_state \<Rightarrow> js_error + batch \<times> app_state" where
  "league_body e today tomorrow l acc =
     (case (l, acc) of ((leagueName, leagueCode), (b, st)) \<Rightarrow>
        (case fetch e (url leagueCode today tomorrow) of
           FetchThrows \<Rightarrow> Inl NetworkError
         | Response status bd \<Rightarrow>
             if status = 429 then Inr (b\<lparr>hasRateLimit := True\<rparr>, st)
             else if \<not> res_ok status then Inr (b, st)
             else
               (case bd of
                  JsonThrows \<Rightarrow> Inl JsonError
                | Json data_matches \<Rightarrow>
                    (case filter_today e today (case data_matches of Some r \<Rightarrow> r | None \<Rightarrow> []) of
                       Inl x \<Rightarrow> Inl x
                     | Inr fdMatches \<Rightarrow>
                         (case normalize_all leagueName fdMatches st of (normalized, st1) \<Rightarrow>
                            if length normalized > 0 then
                              Inr (b\<lparr>allMatches := allMatches b @ normalized,
                                     totalMatches := totalMatches b + length normalized\<rparr>, st1)
                            else Inr (b, st1))))))"

text \<open>
  One iteration of the \<open>for\<close> loop: the request is issued, and the \<open>catch\<close> clause
  swallows whatever the body throws.
\<close>

definition league_step ::
  "env \<Rightarrow> string \<Rightarrow> string \<Rightarrow> string \<times> nat \<Rightarrow> batch \<times> app_state \<times> event list \<Rightarrow>
   batch \<times> app_state \<times> event list" where
  "league_step e today tomorrow l acc =
     (case acc of (b, st, tr) \<Rightarrow>
        (case league_body e today tomorrow l (b, st) of
           Inl _ \<Rightarrow> (b, st, tr @ [Fetch (url (snd l) today tomorrow)])
         | Inr (b1, st1) \<Rightarrow> (b1, st1, tr @ [Fetch (url (snd l) today tomorrow)])))"

fun fetch_leagues ::
  "env \<Rightarrow> string \<Rightarrow> string \<Rightarrow> (string \<times> nat) list \<Rightarrow> batch \<times> app_state \<times> event list \<Rightarrow>
   batch \<times> app_state \<times> event list" where
  "fetch_leagues e today tomorrow [] acc = acc"
| "fetch_leagues e today tomorrow (l # ls) acc =
     fetch_leagues e today tomorrow ls (league_step e today tomorrow l acc)"

text \<open>
  Lines 213 to 296: the three accumulators are initialised and the loop runs over
  \<open>Object.entries(leagues)\<close>.
\<close>

definition no_batch :: batch where
  "no_batch = \<lparr>totalMatches = 0, allMatches = [], hasRateLimit = False\<rparr>"

definition fetch_batch ::
  "env \<Rightarrow> string \<Rightarrow> string \<Rightarrow> app_state \<Rightarrow> batch \<times> app_state \<times> event list" where
  "fetch_batch e today tomorrow st = fetch_leagues e today tomorrow leagues (no_batch, st, [])"

section \<open>loadTodaysMatches\<close>

definition shouldUseCache :: "string \<Rightarrow> int \<Rightarrow> app_state \<Rightarrow> bool" where
  "shouldUseCache today now st =
     (length (cachedMatches st) > 0 \<and> cachedDate st = today \<and>
      now - lastFetchTime st < CACHE_DURATION)"

text \<open>
  The result is the state the function leaves and what it did, in order. The
  \<open>finally\<close> clause resets \<open>isLoading\<close> on every path that set it.
\<close>

definition loadTodaysMatches :: "env \<Rightarrow> app_state \<Rightarrow> app_state \<times> event list" where
  "loadTodaysMatches e st0 =
     (if isLoading st0 then (st0, [])
      else
        (let st = st0\<lparr>isLoading := True\<rparr>;
             today = todayLondonISO e;
             tomorrow = tomorrowLondonISO e;
             now = clock_now e
         in if shouldUseCache today now st then
              (st\<lparr>isLoading := False\<rparr>,
               [HideNoMatches, Display (cachedMatches st), UpdateLastUpdated])
            else
              (case fetch_batch e today tomorrow st of (b, st1, tr) \<Rightarrow>
                 if totalMatches b > 0 then
                   (st1\<lparr>cachedMatches := allMatches b, cachedDate := today,
                        lastFetchTime := now, isLoading := False\<rparr>,
                    tr @ [HideNoMatches, Display (allMatches b)] @ [UpdateLastUpdated])
                 else if hasRateLimit b \<and> length (cachedMatches st1) > 0 \<and> cachedDate st1 = today then
                   (st1\<lparr>isLoading := False\<rparr>,
                    tr @ [HideNoMatches, Display (cachedMatches st1)] @ [UpdateLastUpdated])
                 else if length (cachedMatches st1) > 0 \<and> cachedDate st1 = today then
                   (st1\<lparr>isLoading := False\<rparr>,
                    tr @ [HideNoMatches, Display (cachedMatches st1)] @ [UpdateLastUpdated])
                 else
                   (st1\<lparr>isLoading := False\<rparr>, tr @ [ShowNoMatches] @ [UpdateLastUpdated]))))"

text \<open>The values the module-level variables are declared with.\<close>

definition initial_state :: app_state where
  "initial_state =
     \<lparr>isLoading = False, lastFetchTime = 0, cachedMatches = [], cachedDate = [],
      lastKnownScores = Map.empty, lastKnownStatus = Map.empty,
      activeLeagues = set (map fst leagues)\<rparr>"

section \<open>The refresh scheduler\<close>

text \<open>
  The variables of \<open>startAutoRefresh\<close> and the timers that call \<open>tick\<close>. \<open>timers\<close> is the
  table of armed timers kept by the host, keyed by handle; a variable keeps its handle
  after the timer is cleared. Handles are positive integers, so a variable that holds
  one is truthy.
\<close>

datatype timer = Interval int | Timeout int

record sched_state =
  app :: app_state
  lastLondonDate :: string
  kickoffTimeout :: "nat option"
  currentIntervalMs :: int
  autoRefreshInterval :: "nat option"
  timers :: "nat \<rightharpoonup> timer"
  next_handle :: nat

text \<open>\<open>if (h) clearTimeout(h)\<close>, and the same for \<open>clearInterval\<close>.\<close>

definition clear_timer :: "nat option \<Rightarrow> sched_state \<Rightarrow> sched_state" where
  "clear_timer v st = (case v of None \<Rightarrow> st | Some h \<Rightarrow> st\<lparr>timers := (timers st)(h := None)\<rparr>)"

definition adjustInterval :: "int \<Rightarrow> sched_state \<Rightarrow> sched_state" where
  "adjustInterval ms st =
     (if currentIntervalMs st = ms \<and> autoRefreshInterval st \<noteq> None then st
      else
        (let st1 = clear_timer (autoRefreshInterval st) st;
             h = next_handle st1
         in st1\<lparr>autoRefreshInterval := Some h,
                timers := (timers st1)(h \<mapsto> Interval ms),
                next_handle := Suc h,
                currentIntervalMs := ms\<rparr>))"

text \<open>\<open>(m.fixture?.status?.short || 'NS') !== 'NS'\<close>.\<close>

definition not_NS :: "match \<Rightarrow> bool" where
  "not_NS m = ((if truthy_status (status_short m) then status_short m else SStr ''NS'') \<noteq> SStr ''NS'')"

text \<open>
  The loop of \<open>scheduleKickoffRefresh\<close>. \<open>diffMins > 0 && diffMins <= 3\<close> with
  \<open>diffMins = (kickoff - now) / 60000\<close> is written on the milliseconds; every
  comparison with an invalid date is false.
\<close>

fun earliest_kickoff :: "env \<Rightarrow> int \<Rightarrow> match list \<Rightarrow> int option \<Rightarrow> int option" where
  "earliest_kickoff e now [] earliestKickoff = earliestKickoff"
| "earliest_kickoff e now (m # ms) earliestKickoff =
     earliest_kickoff e now ms
       (if not_NS m then earliestKickoff
        else
          (case date_of e (fixture_date m) of
             None \<Rightarrow> earliestKickoff
           | Some kickoff \<Rightarrow>
               if 0 < kickoff - now \<and> kickoff - now \<le> 3 * 60000 then
                 (case earliestKickoff of
                    None \<Rightarrow> Some kickoff
                  | Some k \<Rightarrow> if kickoff < k then Some kickoff else earliestKickoff)
               else earliestKickoff))"

definition scheduleKickoffRefresh :: "env \<Rightarrow> match list \<Rightarrow> sched_state \<Rightarrow> sched_state" where
  "scheduleKickoffRefresh e matches st =
     (let st1 = clear_timer (kickoffTimeout st) st;
          now = clock_schedule_now e
      in case earliest_kickoff e now matches None of
           None \<Rightarrow> st1
         | Some k \<Rightarrow>
             if k - now > 0 then
               st1\<lparr>kickoffTimeout := Some (next_handle st1),
                    timers := (timers st1)(next_handle st1 \<mapsto> Timeout (k - now)),
                    next_handle := Suc (next_handle st1)\<rparr>
             else st1)"

definition hasUpcomingSoon :: "env \<Rightarrow> int \<Rightarrow> match list \<Rightarrow> bool" where
  "hasUpcomingSoon e now matches =
     list_ex (\<lambda>m. if not_NS m then False
                  else (case date_of e (fixture_date m) of
                          None \<Rightarrow> False
                        | Some kickoff \<Rightarrow> 0 \<le> kickoff - now \<and> kickoff - now \<le> 3 * 60000))
       matches"

text \<open>
  The first part of \<open>tick\<close> (lines 625 to 641), up to the call of
  \<open>loadTodaysMatches\<close>. \<open>resetDailyState\<close> is a function, so the first branch of the
  \<open>typeof\<close> test is the one taken.
\<close>

definition tick_rollover :: "env \<Rightarrow> sched_state \<Rightarrow> sched_state" where
  "tick_rollover e st =
     (let currentLondonDate = london_ymd e (clock_tick_today e) in
      if currentLondonDate \<noteq> lastLondonDate st then
        clear_timer (kickoffTimeout st)
          (st\<lparr>app := resetDailyState (app st), lastLondonDate := currentLondonDate\<rparr>)
      else st)"

text \<open>The rest of \<open>tick\<close>, after \<open>loadTodaysMatches\<close> has returned with the given events.\<close>

definition tick_finish :: "env \<Rightarrow> event list \<Rightarrow> sched_state \<Rightarrow> sched_state \<times> event list" where
  "tick_finish e tr st =
     (if length (cachedMatches (app st)) = 0 then
        (clear_timer (kickoffTimeout st) (clear_timer (autoRefreshInterval st) st), tr)
      else
        (let hasUpcoming = hasUpcomingSoon e (clock_tick_now e) (cachedMatches (app st));
             hasLive = hasLiveMatches (cachedMatches (app st))
         in (scheduleKickoffRefresh e (cachedMatches (app st))
               (adjustInterval (if hasLive \<or> hasUpcoming then 60 * 1000 else 5 * 60 * 1000) st),
             tr @ [UpdateDateTime, UpdateLastUpdated])))"

definition tick :: "env \<Rightarrow> sched_state \<Rightarrow> sched_state \<times> event list" where
  "tick e st =
     (let st1 = tick_rollover e st in
      case loadTodaysMatches e (app st1) of (a, tr) \<Rightarrow> tick_finish e tr (st1\<lparr>app := a\<rparr>))"

text \<open>
  The scheduler state that \<open>startAutoRefresh\<close> builds before its first call of \<open>tick\<close>:
  no timer is armed and the two handles are unset.
\<close>

definition sched_init :: "env \<Rightarrow> app_state \<Rightarrow> nat \<Rightarrow> sched_state" where
  "sched_init e a h =
     \<lparr>app = a, lastLondonDate = todayLondonISO e, kickoffTimeout = None,
      currentIntervalMs = 0, autoRefreshInterval = None, timers = Map.empty, next_handle = h\<rparr>"

definition startAutoRefresh :: "env \<Rightarrow> app_state \<Rightarrow> nat \<Rightarrow> sched_state \<times> event list" where
  "startAutoRefresh e a h = tick e (sched_init e a h)"

section \<open>Auxiliary notions for the proofs\<close>

text \<open>
  Two states agree on a match id when the two last-known objects hold the same entries
  under it.
\<close>

definition agree_on :: "string \<Rightarrow> app_state \<Rightarrow> app_state \<Rightarrow> bool" where
  "agree_on k s t =
     (lastKnownScores s k = lastKnownScores t k \<and> lastKnownStatus s k = lastKnownStatus t k)"

text \<open>Two states hold the same cache when they differ at most in the last-known objects.\<close>

definition same_cache :: "app_state \<Rightarrow> app_state \<Rightarrow> bool" where
  "same_cache s t =
     (isLoading s = isLoading t \<and> lastFetchTime s = lastFetchTime t \<and>
      cachedMatches s = cachedMatches t \<and> cachedDate s = cachedDate t \<and>
      activeLeagues s = activeLeagues t)"

text \<open>
  Every armed timer that calls \<open>tick\<close> is the one whose handle \<open>autoRefreshInterval\<close> or
  \<open>kickoffTimeout\<close> holds. The state \<open>startAutoRefresh\<close> starts from has this property
  and \<open>tick\<close> keeps it (\<open>sched_init_owned\<close>, \<open>tick_owned\<close>).
\<close>

definition timers_owned :: "sched_state \<Rightarrow> bool" where
  "timers_owned st =
     (dom (timers st) \<subseteq> set_option (autoRefreshInterval st) \<union> set_option (kickoffTimeout st))"

section \<open>Sample inputs\<close>

text \<open>
  A fixture with provider id, teams and competition; a fixture without id and teams, whose
  match id is the composite of two missing team keys; a state that remembers the score
  2:1 and the status \<open>LIVE\<close> for match 101.
\<close>

definition ex_team :: "int \<Rightarrow> string \<Rightarrow> team field" where
  "ex_team i n = Val \<lparr>team_id = Val i, team_name = Val n, team_crest = Undefined\<rparr>"

definition ex_match :: "int field \<Rightarrow> int field \<Rightarrow> int field \<Rightarrow> string field \<Rightarrow> raw_match" where
  "ex_match i h a s =
     \<lparr>m_id = i, m_homeTeam = ex_team 57 ''Arsenal FC'', m_awayTeam = ex_team 61 ''Chelsea FC'',
      m_score_home = h, m_score_away = a, m_status = s,
      m_utcDate = Val ''2024-05-04T14:00:00Z'', m_competition_name = Val ''Premier League''\<rparr>"

definition ex_bare :: "int field \<Rightarrow> int field \<Rightarrow> raw_match" where
  "ex_bare h a =
     \<lparr>m_id = Undefined, m_homeTeam = Undefined, m_awayTeam = Undefined,
      m_score_home = h, m_score_away = a, m_status = Val ''TIMED'',
      m_utcDate = Val ''2024-05-04T14:00:00Z'', m_competition_name = Undefined\<rparr>"

definition ex_known :: app_state where
  "ex_known = initial_state\<lparr>lastKnownScores := [''101'' \<mapsto> (2, 1)],
                            lastKnownStatus := [''101'' \<mapsto> SStr ''LIVE'']\<rparr>"

text \<open>
  A displayed live match, and a state whose cache holds it for 4 May 2024, fetched at
  the given instant.
\<close>

definition ex_live :: match where
  "ex_live =
     \<lparr>league_name = ''Premier League'', home_name = ''Arsenal FC'', home_logo = [],
      away_name = ''Chelsea FC'', away_logo = [], goals_home = Num 1, goals_away = Num 0,
      fixture_date = Val ''2024-05-04T14:00:00Z'', status_short = SStr ''LIVE''\<rparr>"

definition ex_cached :: "int \<Rightarrow> app_state" where
  "ex_cached t =
     ex_known\<lparr>cachedMatches := [ex_live], cachedDate := ''2024-05-04'', lastFetchTime := t\<rparr>"

text \<open>
  A date library that knows the London days from 3 to 6 May 2024 (summer time, one hour
  ahead of UTC) and two kick-off times; every clock reading gives the same instant.
\<close>

definition ex_env :: "(string \<Rightarrow> response) \<Rightarrow> int \<Rightarrow> env" where
  "ex_env f t =
     \<lparr>parse_date = (\<lambda>s. if s = ''2024-05-04T14:00:00Z'' then Some 1714831200000
                         else if s = ''2024-05-05T14:00:00Z'' then Some 1714917600000
                         else None),
      london_ymd = (\<lambda>t. if t < 1714777200000 then ''2024-05-03''
                         else if t < 1714863600000 then ''2024-05-04''
                         else if t < 1714950000000 then ''2024-05-05''
                         else ''2024-05-06''),
      fetch = f,
      clock_today = t, clock_tomorrow = t, clock_now = t,
      clock_tick_today = t, clock_tick_now = t, clock_schedule_now = t\<rparr>"

text \<open>
  A provider without fixtures; three fixtures of one day; a provider that limits the
  Premier League request (competition 2021) and answers every other with them.
\<close>

definition ex_fetch_empty :: "string \<Rightarrow> response" where
  "ex_fetch_empty u = Response 200 (Json (Some []))"

definition ex_three :: "raw_match list" where
  "ex_three =
     [ex_match (Val 101) (Val 1) (Val 0) (Val ''IN_PLAY''),
      ex_match (Val 102) Null Null (Val ''TIMED''),
      ex_match (Val 103) (Val 2) (Val 2) (Val ''FINISHED'')]"

definition ex_fetch_limited :: "string \<Rightarrow> response" where
  "ex_fetch_limited u =
     (if u = url 2021 ''2024-05-04'' ''2024-05-06'' then Response 429 JsonThrows
      else Response 200 (Json (Some ex_three)))"

text \<open>
  A scheduler on 4 May 2024 with the one minute interval and a kick-off refresh armed.
\<close>

definition ex_sched :: sched_state where
  "ex_sched =
     \<lparr>app = ex_cached 1714834800000, lastLondonDate = ''2024-05-04'', kickoffTimeout = Some 2,
      currentIntervalMs = 60000, autoRefreshInterval = Some 1,
      timers = [1 \<mapsto> Interval 60000, 2 \<mapsto> Timeout 5000], next_handle = 3\<rparr>"

section \<open>Match ids are never inherited property names\<close>

text \<open>
  A match id is the decimal string of a non-zero number or contains a hyphen, and no
  member of \<open>Object.prototype\<close> has such a name. So a read of a last-known object under
  a match id sees own properties only.
\<close>

lemma digit_char_in: "d < 10 \<Longrightarrow> digit_char d \<in> set ''0123456789''"
  unfolding digit_char_def by (rule nth_mem) simp

lemma digits_chars: "set (digits n) \<subseteq> set ''0123456789''"
proof (induction n rule: digits.induct)
  case (1 n)
  show ?case
  proof (cases "n < 10")
    case True
    then show ?thesis using digit_char_in [of n] by (subst digits.simps) simp
  next
    case False
    then have "n mod 10 < 10" by simp
    with False 1 digit_char_in [of "n mod 10"] show ?thesis
      by (subst digits.simps) simp
  qed
qed

lemma digits_nonempty: "digits n \<noteq> []"
  by (subst digits.simps) simp

lemma show_int_hd: "show_int i \<noteq> [] \<and> hd (show_int i) \<in> set ''-0123456789''"
proof (cases "i < 0")
  case True
  then show ?thesis by (simp add: show_int_def)
next
  case False
  have "hd (digits (nat i)) \<in> set (digits (nat i))" using digits_nonempty by simp
  then have "hd (digits (nat i)) \<in> set ''0123456789''" using digits_chars by blast
  with False show ?thesis using digits_nonempty by (simp add: show_int_def)
qed

lemma prototype_key_shape:
  "k \<in> set object_prototype_keys \<Longrightarrow> hd k \<notin> set ''-0123456789'' \<and> CHR ''-'' \<notin> set k"
  by (auto simp: object_prototype_keys_def)

lemma show_int_not_inherited: "show_int i \<notin> set object_prototype_keys"
  using show_int_hd [of i] prototype_key_shape [of "show_int i"] by blast

lemma matchId_not_inherited: "matchId m \<notin> set object_prototype_keys"
proof -
  have c: "team_key (m_homeTeam m) @ ''-'' @ team_key (m_awayTeam m) \<notin> set object_prototype_keys"
    using prototype_key_shape [of "team_key (m_homeTeam m) @ ''-'' @ team_key (m_awayTeam m)"]
    by auto
  show ?thesis
    using c show_int_not_inherited
    by (auto simp: matchId_def Let_def split: field.splits)
qed

lemma js_get_matchId:
  "js_get lk (matchId m) = (case lk (matchId m) of None \<Rightarrow> Absent | Some v \<Rightarrow> Own v)"
  by (simp add: js_get_def matchId_not_inherited split: option.splits)

lemma js_get_key [simp]:
  "k \<notin> set object_prototype_keys \<Longrightarrow>
   js_get lk k = (case lk k of None \<Rightarrow> Absent | Some v \<Rightarrow> Own v)"
  by (simp add: js_get_def split: option.splits)

section \<open>Properties of the status normalisation\<close>

lemma mapFDStatusToShort_truthy: "truthy_status (mapFDStatusToShort s)"
  by (simp add: mapFDStatusToShort_def split: looked.splits)

text \<open>
  Outside the inherited names the function is as the table reads: the result is one of
  the seven codes, and a code that is not a key of the table gives \<open>NS\<close>.
\<close>

lemma mapFDStatusToShort_canonical:
  "to_string s \<notin> set object_prototype_keys \<Longrightarrow> canonical_status (mapFDStatusToShort s)"
  by (auto simp: mapFDStatusToShort_def js_get_def STATUS_MAP_def canonical_codes_def
      split: option.splits if_splits)

lemma mapFDStatusToShort_unmapped:
  "to_string s \<notin> set object_prototype_keys \<Longrightarrow> to_string s \<notin> dom STATUS_MAP \<Longrightarrow>
   mapFDStatusToShort s = SStr ''NS''"
  by (auto simp: mapFDStatusToShort_def js_get_def split: option.splits)

lemma status_TIMED [simp]: "mapFDStatusToShort (Val ''TIMED'') = SStr ''NS''"
  by (simp add: mapFDStatusToShort_def js_get_def STATUS_MAP_def object_prototype_keys_def)

lemma status_blank [simp]: "mapFDStatusToShort Undefined = SStr ''NS''"
  by (simp add: mapFDStatusToShort_def js_get_def STATUS_MAP_def object_prototype_keys_def)

lemma status_IN_PLAY [simp]: "mapFDStatusToShort (Val ''IN_PLAY'') = SStr ''LIVE''"
  by (simp add: mapFDStatusToShort_def js_get_def STATUS_MAP_def)

lemma status_FINISHED [simp]: "mapFDStatusToShort (Val ''FINISHED'') = SStr ''FT''"
  by (simp add: mapFDStatusToShort_def js_get_def STATUS_MAP_def)

text \<open>
  C2 (the claim fails on the code): the result of the status normalisation is not always
  a member of the canonical vocabulary. For the provider status \<open>"constructor"\<close> the read
  \<open>STATUS_MAP[status]\<close> finds \<open>Object.prototype.constructor\<close>, which is truthy, so the
  \<open>|| 'NS'\<close> default is not taken and the function returns that inherited member.
\<close>

theorem mapFDStatusToShort_inherited:
  "mapFDStatusToShort (Val ''constructor'') = SProto ''constructor'' \<and>
   \<not> canonical_status (mapFDStatusToShort (Val ''constructor''))"
  by (simp add: mapFDStatusToShort_def js_get_def STATUS_MAP_def object_prototype_keys_def)

section \<open>Reconciliation of one match\<close>

lemma reconcile_scores_eq:
  "reconcile_scores hs as (matchId m) lk =
     (case (hs, as) of
        (Val h, Val a) \<Rightarrow> ((Num h, Num a), lk(matchId m \<mapsto> (h, a)))
      | _ \<Rightarrow> (case lk (matchId m) of
                Some (h, a) \<Rightarrow> ((Num h, Num a), lk)
              | None \<Rightarrow> ((Dash, Dash), lk)))"
  by (cases hs; cases as) (simp_all add: js_get_matchId split: option.splits)

lemma reconcile_status_eq:
  "reconcile_status (mapFDStatusToShort s) (matchId m) lk =
     (if mapFDStatusToShort s = SStr ''NS'' then
        (case lk (matchId m) of
           Some v \<Rightarrow> (if truthy_status v then v else SStr ''NS'', lk)
         | None \<Rightarrow> (SStr ''NS'', lk))
      else (mapFDStatusToShort s, lk(matchId m \<mapsto> mapFDStatusToShort s)))"
  by (simp add: reconcile_status_def mapFDStatusToShort_truthy js_get_matchId split: option.splits)

lemma normalize_goals:
  "(goals_home (fst (normalize ln m st)), goals_away (fst (normalize ln m st))) =
     fst (reconcile_scores (m_score_home m) (m_score_away m) (matchId m) (lastKnownScores st))"
  by (simp add: normalize_def Let_def split_beta)

lemma normalize_lastKnownScores:
  "lastKnownScores (snd (normalize ln m st)) =
     snd (reconcile_scores (m_score_home m) (m_score_away m) (matchId m) (lastKnownScores st))"
  by (simp add: normalize_def Let_def split_beta)

lemma normalize_status:
  "status_short (fst (normalize ln m st)) =
     fst (reconcile_status (mapFDStatusToShort (m_status m)) (matchId m) (lastKnownStatus st))"
  by (simp add: normalize_def Let_def split_beta)

lemma normalize_lastKnownStatus:
  "lastKnownStatus (snd (normalize ln m st)) =
     snd (reconcile_status (mapFDStatusToShort (m_status m)) (matchId m) (lastKnownStatus st))"
  by (simp add: normalize_def Let_def split_beta)

lemma ex_match_sel [simp]:
  "m_id (ex_match i h a s) = i"
  "m_homeTeam (ex_match i h a s) = ex_team 57 ''Arsenal FC''"
  "m_awayTeam (ex_match i h a s) = ex_team 61 ''Chelsea FC''"
  "m_score_home (ex_match i h a s) = h"
  "m_score_away (ex_match i h a s) = a"
  "m_status (ex_match i h a s) = s"
  "m_utcDate (ex_match i h a s) = Val ''2024-05-04T14:00:00Z''"
  "m_competition_name (ex_match i h a s) = Val ''Premier League''"
  by (simp_all add: ex_match_def)

lemma ex_bare_sel [simp]:
  "m_id (ex_bare h a) = Undefined"
  "m_homeTeam (ex_bare h a) = Undefined"
  "m_awayTeam (ex_bare h a) = Undefined"
  "m_score_home (ex_bare h a) = h"
  "m_score_away (ex_bare h a) = a"
  "m_status (ex_bare h a) = Val ''TIMED''"
  "m_utcDate (ex_bare h a) = Val ''2024-05-04T14:00:00Z''"
  "m_competition_name (ex_bare h a) = Undefined"
  by (simp_all add: ex_bare_def)

lemma show_int_101: "show_int 101 = ''101''" "show_int 102 = ''102''" "show_int 103 = ''103''"
  by (simp_all add: show_int_def digits.simps digit_char_def)

lemma matchId_ex_match [simp]:
  "matchId (ex_match (Val 101) h a s) = ''101''"
  "matchId (ex_match (Val 102) h a s) = ''102''"
  "matchId (ex_match (Val 103) h a s) = ''103''"
  by (simp_all add: matchId_def show_int_101)

lemma matchId_ex_bare [simp]: "matchId (ex_bare h a) = ''undefined-undefined''"
  by (simp add: matchId_def)

lemma ex_keys_own [simp]:
  "''101'' \<notin> set object_prototype_keys"
  "''102'' \<notin> set object_prototype_keys"
  "''103'' \<notin> set object_prototype_keys"
  "''undefined-undefined'' \<notin> set object_prototype_keys"
  by (simp_all add: object_prototype_keys_def)

text \<open>
  C1: for every raw match the callback processes, when the provider gives both scores
  they are displayed as given and stored under the match id; when one is missing, the
  pair stored under the match id is displayed if there is one, and \<open>'-'\<close> for both
  otherwise, with nothing stored. The displayed pair is two numbers or two \<open>'-'\<close>, never
  one of each.
\<close>

theorem normalize_scores:
  assumes "normalize leagueName m st = (out, st')"
  shows "(\<forall>h a. m_score_home m = Val h \<and> m_score_away m = Val a \<longrightarrow>
            goals_home out = Num h \<and> goals_away out = Num a \<and>
            lastKnownScores st' = (lastKnownScores st)(matchId m \<mapsto> (h, a))) \<and>
         (nullish (m_score_home m) \<or> nullish (m_score_away m) \<longrightarrow>
            lastKnownScores st' = lastKnownScores st \<and>
            (\<forall>h a. lastKnownScores st (matchId m) = Some (h, a) \<longrightarrow>
               goals_home out = Num h \<and> goals_away out = Num a) \<and>
            (lastKnownScores st (matchId m) = None \<longrightarrow>
               goals_home out = Dash \<and> goals_away out = Dash)) \<and>
         ((\<exists>h a. goals_home out = Num h \<and> goals_away out = Num a) \<or>
          (goals_home out = Dash \<and> goals_away out = Dash))"
proof -
  have g: "(goals_home out, goals_away out) =
        fst (reconcile_scores (m_score_home m) (m_score_away m) (matchId m) (lastKnownScores st))"
    using normalize_goals [of leagueName m st] assms by simp
  have l: "lastKnownScores st' =
        snd (reconcile_scores (m_score_home m) (m_score_away m) (matchId m) (lastKnownScores st))"
    using normalize_lastKnownScores [of leagueName m st] assms by simp
  show ?thesis
    using g l unfolding reconcile_scores_eq
    by (cases "m_score_home m"; cases "m_score_away m")
       (auto split: option.splits)
qed

text \<open>
  The theorem at three inputs: both scores given (3:1 displayed and stored), both
  missing with 2:1 remembered (2:1 displayed), and one missing with nothing remembered
  (\<open>'-'\<close> for both, although the home score was given).
\<close>

theorem normalize_scores_witness:
  "goals_home (fst (normalize ''PL'' (ex_match (Val 101) (Val 3) (Val 1) (Val ''IN_PLAY'')) ex_known)) = Num 3 \<and>
   goals_away (fst (normalize ''PL'' (ex_match (Val 101) (Val 3) (Val 1) (Val ''IN_PLAY'')) ex_known)) = Num 1 \<and>
   lastKnownScores (snd (normalize ''PL'' (ex_match (Val 101) (Val 3) (Val 1) (Val ''IN_PLAY'')) ex_known)) ''101''
     = Some (3, 1) \<and>
   lastKnownScores ex_known ''101'' = Some (2, 1) \<and>
   goals_home (fst (normalize ''PL'' (ex_match (Val 101) Null Null (Val ''IN_PLAY'')) ex_known)) = Num 2 \<and>
   goals_away (fst (normalize ''PL'' (ex_match (Val 101) Null Null (Val ''IN_PLAY'')) ex_known)) = Num 1 \<and>
   lastKnownScores initial_state ''101'' = None \<and>
   goals_home (fst (normalize ''PL'' (ex_match (Val 101) (Val 1) Null (Val ''IN_PLAY'')) initial_state)) = Dash \<and>
   goals_away (fst (normalize ''PL'' (ex_match (Val 101) (Val 1) Null (Val ''IN_PLAY'')) initial_state)) = Dash"
  using
    normalize_scores [of "''PL''" "ex_match (Val 101) (Val 3) (Val 1) (Val ''IN_PLAY'')" ex_known
       "fst (normalize ''PL'' (ex_match (Val 101) (Val 3) (Val 1) (Val ''IN_PLAY'')) ex_known)"
       "snd (normalize ''PL'' (ex_match (Val 101) (Val 3) (Val 1) (Val ''IN_PLAY'')) ex_known)"]
    normalize_scores [of "''PL''" "ex_match (Val 101) Null Null (Val ''IN_PLAY'')" ex_known
       "fst (normalize ''PL'' (ex_match (Val 101) Null Null (Val ''IN_PLAY'')) ex_known)"
       "snd (normalize ''PL'' (ex_match (Val 101) Null Null (Val ''IN_PLAY'')) ex_known)"]
    normalize_scores [of "''PL''" "ex_match (Val 101) (Val 1) Null (Val ''IN_PLAY'')" initial_state
       "fst (normalize ''PL'' (ex_match (Val 101) (Val 1) Null (Val ''IN_PLAY'')) initial_state)"
       "snd (normalize ''PL'' (ex_match (Val 101) (Val 1) Null (Val ''IN_PLAY'')) initial_state)"]
  by (simp add: ex_known_def initial_state_def)

text \<open>
  C3 (amended): when the normalised status is the default \<open>NS\<close>, nothing is stored, the
  status stored under the match id is displayed if there is one, and \<open>NS\<close> is displayed
  if there is none; so a match remembered as \<open>LIVE\<close> stays \<open>LIVE\<close> when the provider sends
  an unmapped or no status. When the normalised status is not \<open>NS\<close>, it is displayed and
  stored under the match id.
\<close>

theorem normalize_status_guard:
  assumes "normalize leagueName m st = (out, st')"
  shows "(mapFDStatusToShort (m_status m) = SStr ''NS'' \<longrightarrow>
            lastKnownStatus st' = lastKnownStatus st \<and>
            (\<forall>v. lastKnownStatus st (matchId m) = Some v \<and> truthy_status v \<longrightarrow> status_short out = v) \<and>
            (lastKnownStatus st (matchId m) = None \<longrightarrow> status_short out = SStr ''NS'')) \<and>
         (mapFDStatusToShort (m_status m) \<noteq> SStr ''NS'' \<longrightarrow>
            status_short out = mapFDStatusToShort (m_status m) \<and>
            lastKnownStatus st' = (lastKnownStatus st)(matchId m \<mapsto> mapFDStatusToShort (m_status m)))"
proof -
  have g: "status_short out =
        fst (reconcile_status (mapFDStatusToShort (m_status m)) (matchId m) (lastKnownStatus st))"
    using normalize_status [of leagueName m st] assms by simp
  have l: "lastKnownStatus st' =
        snd (reconcile_status (mapFDStatusToShort (m_status m)) (matchId m) (lastKnownStatus st))"
    using normalize_lastKnownStatus [of leagueName m st] assms by simp
  show ?thesis
    using g l unfolding reconcile_status_eq by (auto split: option.splits)
qed

text \<open>
  The theorem at four inputs: an unmapped and a missing status with \<open>LIVE\<close> remembered,
  an unmapped status with nothing remembered, and \<open>IN_PLAY\<close> with nothing remembered.
\<close>

theorem normalize_status_guard_witness:
  "lastKnownStatus ex_known ''101'' = Some (SStr ''LIVE'') \<and>
   status_short (fst (normalize ''PL'' (ex_match (Val 101) Null Null (Val ''TIMED'')) ex_known)) = SStr ''LIVE'' \<and>
   status_short (fst (normalize ''PL'' (ex_match (Val 101) Null Null Undefined) ex_known)) = SStr ''LIVE'' \<and>
   status_short (fst (normalize ''PL'' (ex_match (Val 101) Null Null (Val ''TIMED'')) initial_state)) = SStr ''NS'' \<and>
   status_short (fst (normalize ''PL'' (ex_match (Val 101) Null Null (Val ''IN_PLAY'')) initial_state)) = SStr ''LIVE'' \<and>
   lastKnownStatus (snd (normalize ''PL'' (ex_match (Val 101) Null Null (Val ''IN_PLAY'')) initial_state)) ''101''
     = Some (SStr ''LIVE'')"
  using
    normalize_status_guard [of "''PL''" "ex_match (Val 101) Null Null (Val ''TIMED'')" ex_known
       "fst (normalize ''PL'' (ex_match (Val 101) Null Null (Val ''TIMED'')) ex_known)"
       "snd (normalize ''PL'' (ex_match (Val 101) Null Null (Val ''TIMED'')) ex_known)"]
    normalize_status_guard [of "''PL''" "ex_match (Val 101) Null Null Undefined" ex_known
       "fst (normalize ''PL'' (ex_match (Val 101) Null Null Undefined) ex_known)"
       "snd (normalize ''PL'' (ex_match (Val 101) Null Null Undefined) ex_known)"]
    normalize_status_guard [of "''PL''" "ex_match (Val 101) Null Null (Val ''TIMED'')" initial_state
       "fst (normalize ''PL'' (ex_match (Val 101) Null Null (Val ''TIMED'')) initial_state)"
       "snd (normalize ''PL'' (ex_match (Val 101) Null Null (Val ''TIMED'')) initial_state)"]
    normalize_status_guard [of "''PL''" "ex_match (Val 101) Null Null (Val ''IN_PLAY'')" initial_state
       "fst (normalize ''PL'' (ex_match (Val 101) Null Null (Val ''IN_PLAY'')) initial_state)"
       "snd (normalize ''PL'' (ex_match (Val 101) Null Null (Val ''IN_PLAY'')) initial_state)"]
  by (simp add: ex_known_def initial_state_def)

text \<open>
  C3 as stated fails: the status \<open>TIMED\<close> normalises to \<open>NS\<close>, no status is remembered
  for the match, and after the callback the last-known object still has no entry for it:
  the newly resolved status has not been recorded.
\<close>

theorem status_default_not_recorded:
  "mapFDStatusToShort (m_status (ex_match (Val 101) Null Null (Val ''TIMED''))) = SStr ''NS'' \<and>
   lastKnownStatus initial_state (matchId (ex_match (Val 101) Null Null (Val ''TIMED''))) = None \<and>
   lastKnownStatus (snd (normalize ''PL'' (ex_match (Val 101) Null Null (Val ''TIMED'')) initial_state))
       (matchId (ex_match (Val 101) Null Null (Val ''TIMED'')))
     \<noteq> Some (mapFDStatusToShort (m_status (ex_match (Val 101) Null Null (Val ''TIMED''))))"
  by (simp add: normalize_def Let_def split_beta reconcile_status_def initial_state_def)

section \<open>Reconciliation of a batch\<close>

lemma agree_on_refl: "agree_on k s s"
  by (simp add: agree_on_def)

lemma agree_on_sym: "agree_on k s t \<Longrightarrow> agree_on k t s"
  by (simp add: agree_on_def)

lemma agree_on_trans: "agree_on k s t \<Longrightarrow> agree_on k t u \<Longrightarrow> agree_on k s u"
  by (simp add: agree_on_def)

lemma normalize_out_local:
  "agree_on (matchId m) s t \<Longrightarrow> fst (normalize ln m s) = fst (normalize ln m t)"
  by (cases "m_score_home m"; cases "m_score_away m")
     (simp_all add: normalize_def Let_def split_beta agree_on_def js_get_matchId
        reconcile_status_eq split: option.splits)

lemma normalize_upd_local:
  "agree_on (matchId m) s t \<Longrightarrow>
   agree_on (matchId m) (snd (normalize ln m s)) (snd (normalize ln m t))"
  by (cases "m_score_home m"; cases "m_score_away m")
     (simp_all add: normalize_def Let_def split_beta agree_on_def js_get_matchId
        reconcile_status_eq split: option.splits)

lemma normalize_frame:
  "k \<noteq> matchId m \<Longrightarrow> agree_on k (snd (normalize ln m s)) s"
  by (cases "m_score_home m"; cases "m_score_away m")
     (simp_all add: normalize_def Let_def split_beta agree_on_def js_get_matchId
        reconcile_status_eq split: option.splits)

lemma normalize_twice:
  "fst (normalize ln m (snd (normalize ln m s))) = fst (normalize ln m s)"
  by (cases "m_score_home m"; cases "m_score_away m")
     (simp_all add: normalize_def Let_def split_beta js_get_matchId
        reconcile_status_eq split: option.splits)

lemma normalize_all_frame:
  "k \<notin> matchId ` set ms \<Longrightarrow> agree_on k (snd (normalize_all ln ms s)) s"
proof (induction ms arbitrary: s)
  case Nil
  show ?case by (simp add: agree_on_refl)
next
  case (Cons m ms)
  have "agree_on k (snd (normalize_all ln ms (snd (normalize ln m s)))) (snd (normalize ln m s))"
    using Cons by simp
  moreover have "agree_on k (snd (normalize ln m s)) s"
    using Cons.prems by (intro normalize_frame) auto
  ultimately show ?case
    by (auto simp: split_beta Let_def intro: agree_on_trans)
qed

lemma normalize_all_final:
  "distinct (map matchId ms) \<Longrightarrow> m \<in> set ms \<Longrightarrow>
   agree_on (matchId m) (snd (normalize_all ln ms s)) (snd (normalize ln m s))"
proof (induction ms arbitrary: s)
  case Nil
  then show ?case by simp
next
  case (Cons x ms)
  let ?s1 = "snd (normalize ln x s)"
  have fin: "snd (normalize_all ln (x # ms) s) = snd (normalize_all ln ms ?s1)"
    by (simp add: split_beta Let_def)
  show ?case
  proof (cases "m = x")
    case True
    have "matchId x \<notin> matchId ` set ms" using Cons.prems by auto
    then show ?thesis unfolding fin True by (rule normalize_all_frame)
  next
    case False
    then have mem: "m \<in> set ms" using Cons.prems by simp
    have ne: "matchId m \<noteq> matchId x" using Cons.prems(1) imageI [OF mem, of matchId] by auto
    have "agree_on (matchId m) (snd (normalize_all ln ms ?s1)) (snd (normalize ln m ?s1))"
      using Cons.IH [OF _ mem] Cons.prems by simp
    moreover have "agree_on (matchId m) (snd (normalize ln m ?s1)) (snd (normalize ln m s))"
      by (rule normalize_upd_local) (rule normalize_frame [OF ne])
    ultimately show ?thesis unfolding fin by (rule agree_on_trans)
  qed
qed

lemma normalize_all_stable:
  "distinct (map matchId ms) \<Longrightarrow>
   (\<And>m. m \<in> set ms \<Longrightarrow> agree_on (matchId m) t (snd (normalize ln m s))) \<Longrightarrow>
   fst (normalize_all ln ms t) = fst (normalize_all ln ms s)"
proof (induction ms arbitrary: s t)
  case Nil
  show ?case by simp
next
  case (Cons x ms)
  let ?s1 = "snd (normalize ln x s)"
  let ?t1 = "snd (normalize ln x t)"
  have hd: "fst (normalize ln x t) = fst (normalize ln x s)"
  proof -
    have "fst (normalize ln x t) = fst (normalize ln x ?s1)"
      by (rule normalize_out_local) (rule Cons.prems(2), simp)
    then show ?thesis by (simp add: normalize_twice)
  qed
  have tl: "fst (normalize_all ln ms ?t1) = fst (normalize_all ln ms ?s1)"
  proof (rule Cons.IH)
    show "distinct (map matchId ms)" using Cons.prems(1) by simp
  next
    fix m assume mem: "m \<in> set ms"
    have ne: "matchId m \<noteq> matchId x" using Cons.prems(1) imageI [OF mem, of matchId] by auto
    have a: "agree_on (matchId m) ?t1 t" by (rule normalize_frame [OF ne])
    have b: "agree_on (matchId m) t (snd (normalize ln m s))"
      by (rule Cons.prems(2)) (simp add: mem)
    have c: "agree_on (matchId m) (snd (normalize ln m s)) (snd (normalize ln m ?s1))"
      by (rule normalize_upd_local) (rule agree_on_sym, rule normalize_frame [OF ne])
    show "agree_on (matchId m) ?t1 (snd (normalize ln m ?s1))"
      using a b c by (blast intro: agree_on_trans)
  qed
  show ?case using hd tl by (simp add: split_beta Let_def prod_eq_iff)
qed

lemma normalize_all_length: "length (fst (normalize_all ln ms st)) = length ms"
  by (induction ms arbitrary: st) (simp_all add: split_beta Let_def)

text \<open>
  C8 (amended): for a batch whose match ids are pairwise distinct, running the
  reconciliation a second time, on the state the first run left, displays the same
  matches as the first run.
\<close>

theorem normalize_all_idempotent:
  assumes "distinct (map matchId ms)"
  shows "fst (normalize_all ln ms (snd (normalize_all ln ms st))) = fst (normalize_all ln ms st)"
  using assms by (intro normalize_all_stable normalize_all_final)

text \<open>
  The theorem at a batch of two fixtures with the ids \<open>101\<close> and \<open>undefined-undefined\<close>.
\<close>

theorem normalize_all_idempotent_witness:
  "distinct (map matchId [ex_match (Val 101) Null Null (Val ''TIMED''), ex_bare (Val 2) (Val 1)]) \<and>
   fst (normalize_all ''PL'' [ex_match (Val 101) Null Null (Val ''TIMED''), ex_bare (Val 2) (Val 1)]
          (snd (normalize_all ''PL'' [ex_match (Val 101) Null Null (Val ''TIMED''), ex_bare (Val 2) (Val 1)] ex_known)))
   = fst (normalize_all ''PL'' [ex_match (Val 101) Null Null (Val ''TIMED''), ex_bare (Val 2) (Val 1)] ex_known) \<and>
   map goals_home (fst (normalize_all ''PL''
       [ex_match (Val 101) Null Null (Val ''TIMED''), ex_bare (Val 2) (Val 1)] ex_known)) = [Num 2, Num 2]"
  using normalize_all_idempotent
    [of "[ex_match (Val 101) Null Null (Val ''TIMED''), ex_bare (Val 2) (Val 1)]" "''PL''" ex_known]
  by (simp add: normalize_def Let_def split_beta reconcile_status_def ex_known_def initial_state_def)

text \<open>
  C8 as stated fails: two fixtures without id and teams share the match id
  \<open>undefined-undefined\<close>. The first has no score and the second has 2:1. The first run
  displays \<open>'-'\<close> for the first fixture and stores 2:1 at the second; the second run
  displays 2:1 for the first.
\<close>

theorem duplicate_id_not_idempotent:
  "fst (normalize_all ''PL'' [ex_bare Null Null, ex_bare (Val 2) (Val 1)]
          (snd (normalize_all ''PL'' [ex_bare Null Null, ex_bare (Val 2) (Val 1)] initial_state)))
   \<noteq> fst (normalize_all ''PL'' [ex_bare Null Null, ex_bare (Val 2) (Val 1)] initial_state)"
  by (simp add: normalize_def Let_def split_beta reconcile_status_def initial_state_def)

section \<open>Properties of the fetch loop\<close>

lemma same_cache_refl: "same_cache s s"
  by (simp add: same_cache_def)

lemma same_cache_trans: "same_cache s t \<Longrightarrow> same_cache t u \<Longrightarrow> same_cache s u"
  by (simp add: same_cache_def)

lemma normalize_same_cache: "same_cache (snd (normalize ln m st)) st"
  by (simp add: normalize_def Let_def split_beta same_cache_def)

lemma normalize_all_same_cache: "same_cache (snd (normalize_all ln ms st)) st"
proof (induction ms arbitrary: st)
  case Nil
  show ?case by (simp add: same_cache_refl)
next
  case (Cons m ms)
  have "same_cache (snd (normalize_all ln ms (snd (normalize ln m st)))) (snd (normalize ln m st))"
    by (rule Cons.IH)
  then show ?case
    using normalize_same_cache [of ln m st]
    by (auto simp: split_beta Let_def intro: same_cache_trans)
qed

lemma league_body_same_cache:
  "league_body e today tomorrow l (b, st) = Inr (b1, st1) \<Longrightarrow> same_cache st1 st"
  using normalize_all_same_cache
  by (cases l)
     (auto simp: league_body_def same_cache_refl split_beta
       split: response.splits body.splits sum.splits if_splits)

lemma league_body_flag:
  "league_body e today tomorrow l (b, st) = Inr (b1, st1) \<Longrightarrow> hasRateLimit b \<Longrightarrow> hasRateLimit b1"
  by (cases l)
     (auto simp: league_body_def split_beta
       split: response.splits body.splits sum.splits if_splits)

lemma league_step_same_cache:
  "same_cache (fst (snd (league_step e today tomorrow l (b, st, tr)))) st"
  using league_body_same_cache [of e today tomorrow l b st]
  by (auto simp: league_step_def same_cache_refl split: sum.splits)

lemma league_step_flag:
  "hasRateLimit b \<Longrightarrow> hasRateLimit (fst (league_step e today tomorrow l (b, st, tr)))"
  using league_body_flag [of e today tomorrow l b st]
  by (auto simp: league_step_def split: sum.splits)

lemma league_step_events:
  "snd (snd (league_step e today tomorrow l (b, st, tr))) = tr @ [Fetch (url (snd l) today tomorrow)]"
  by (auto simp: league_step_def split: sum.splits)

lemma fetch_leagues_same_cache:
  "same_cache (fst (snd (fetch_leagues e today tomorrow lgs (b, st, tr)))) st"
proof (induction lgs arbitrary: b st tr)
  case Nil
  show ?case by (simp add: same_cache_refl)
next
  case (Cons l lgs)
  obtain b1 st1 tr1 where s: "league_step e today tomorrow l (b, st, tr) = (b1, st1, tr1)"
    by (cases "league_step e today tomorrow l (b, st, tr)") auto
  have "same_cache st1 st" using league_step_same_cache [of e today tomorrow l b st tr] s by simp
  moreover have "same_cache (fst (snd (fetch_leagues e today tomorrow lgs (b1, st1, tr1)))) st1"
    by (rule Cons.IH)
  ultimately show ?case using s by (auto intro: same_cache_trans)
qed

lemma fetch_leagues_events:
  "snd (snd (fetch_leagues e today tomorrow lgs (b, st, tr))) =
     tr @ map (\<lambda>l. Fetch (url (snd l) today tomorrow)) lgs"
proof (induction lgs arbitrary: b st tr)
  case Nil
  show ?case by simp
next
  case (Cons l lgs)
  obtain b1 st1 tr1 where s: "league_step e today tomorrow l (b, st, tr) = (b1, st1, tr1)"
    by (cases "league_step e today tomorrow l (b, st, tr)") auto
  have "tr1 = tr @ [Fetch (url (snd l) today tomorrow)]"
    using league_step_events [of e today tomorrow l b st tr] s by simp
  then show ?case using s Cons.IH [of b1 st1 tr1] by simp
qed

lemma fetch_leagues_flag_kept:
  "hasRateLimit b \<Longrightarrow> hasRateLimit (fst (fetch_leagues e today tomorrow lgs (b, st, tr)))"
proof (induction lgs arbitrary: b st tr)
  case Nil
  then show ?case by simp
next
  case (Cons l lgs)
  obtain b1 st1 tr1 where s: "league_step e today tomorrow l (b, st, tr) = (b1, st1, tr1)"
    by (cases "league_step e today tomorrow l (b, st, tr)") auto
  have "hasRateLimit b1" using league_step_flag [OF Cons.prems, of e today tomorrow l st tr] s by simp
  then show ?case using s Cons.IH [of b1 st1 tr1] by simp
qed

lemma league_body_429:
  "fetch e (url (snd l) today tomorrow) = Response 429 bd \<Longrightarrow>
   league_body e today tomorrow l (b, st) = Inr (b\<lparr>hasRateLimit := True\<rparr>, st)"
  by (cases l) (simp add: league_body_def)

lemma fetch_leagues_flag_set:
  "l \<in> set lgs \<Longrightarrow> fetch e (url (snd l) today tomorrow) = Response 429 bd \<Longrightarrow>
   hasRateLimit (fst (fetch_leagues e today tomorrow lgs (b, st, tr)))"
proof (induction lgs arbitrary: b st tr)
  case Nil
  then show ?case by simp
next
  case (Cons x lgs)
  obtain b1 st1 tr1 where s: "league_step e today tomorrow x (b, st, tr) = (b1, st1, tr1)"
    by (cases "league_step e today tomorrow x (b, st, tr)") auto
  show ?case
  proof (cases "l = x")
    case True
    have "hasRateLimit b1"
      using s league_body_429 [OF Cons.prems(2), of b st] True by (auto simp: league_step_def)
    then show ?thesis using s fetch_leagues_flag_kept [of b1 e today tomorrow lgs st1 tr1] by simp
  next
    case False
    then have "l \<in> set lgs" using Cons.prems(1) by simp
    then show ?thesis using s Cons.IH [OF _ Cons.prems(2), of b1 st1 tr1] by simp
  qed
qed

lemma filter_today_all:
  "(\<forall>m\<in>set ms. londonYMD e (m_utcDate m) = Inr today) \<Longrightarrow> filter_today e today ms = Inr ms"
  by (induction ms) simp_all

lemma fetch_batch_events:
  "snd (snd (fetch_batch e today tomorrow st)) =
     map (\<lambda>l. Fetch (url (snd l) today tomorrow)) leagues"
  by (simp add: fetch_batch_def fetch_leagues_events)

lemma fetch_batch_same_cache: "same_cache (fst (snd (fetch_batch e today tomorrow st))) st"
  by (simp add: fetch_batch_def fetch_leagues_same_cache)

lemma ex_env_sel [simp]:
  "fetch (ex_env f t) = f"
  "clock_today (ex_env f t) = t"
  "clock_tomorrow (ex_env f t) = t"
  "clock_now (ex_env f t) = t"
  "clock_tick_today (ex_env f t) = t"
  "clock_tick_now (ex_env f t) = t"
  "clock_schedule_now (ex_env f t) = t"
  by (simp_all add: ex_env_def)

lemma ex_env_dates [simp]:
  "1714777200000 \<le> x \<Longrightarrow> x < 1714863600000 \<Longrightarrow> london_ymd (ex_env f t) x = ''2024-05-04''"
  "1714863600000 \<le> x \<Longrightarrow> x < 1714950000000 \<Longrightarrow> london_ymd (ex_env f t) x = ''2024-05-05''"
  "1714950000000 \<le> x \<Longrightarrow> london_ymd (ex_env f t) x = ''2024-05-06''"
  "parse_date (ex_env f t) ''2024-05-04T14:00:00Z'' = Some 1714831200000"
  by (simp_all add: ex_env_def)

lemma ex_cached_sel [simp]:
  "isLoading (ex_cached t) = False"
  "cachedMatches (ex_cached t) = [ex_live]"
  "cachedDate (ex_cached t) = ''2024-05-04''"
  "lastFetchTime (ex_cached t) = t"
  "lastKnownScores (ex_cached t) = [''101'' \<mapsto> (2, 1)]"
  "lastKnownStatus (ex_cached t) = [''101'' \<mapsto> SStr ''LIVE'']"
  by (simp_all add: ex_cached_def ex_known_def initial_state_def)

lemma show_int_codes [simp]:
  "show_int 2021 = ''2021''" "show_int 2002 = ''2002''"
  by (simp_all add: show_int_def digits.simps digit_char_def)

lemma url_ne [simp]: "url 2002 a b \<noteq> url 2021 a b"
  by (simp add: url_def)

lemma fetch_batch_empty:
  "fetch_batch (ex_env ex_fetch_empty t) today tomorrow st =
     (no_batch, st, map (\<lambda>l. Fetch (url (snd l) today tomorrow)) leagues)"
  by (simp add: fetch_batch_def leagues_def league_step_def league_body_def ex_fetch_empty_def
      res_ok_def)

text \<open>
  C5: when the response for one league of the loop has status 429, the flag
  \<open>hasRateLimit\<close> is set at the end of the loop, a request has been issued for every
  league in order, and the body of that league's iteration ends without an exception,
  having changed nothing but the flag. When the leagues are that league and a league \<open>B\<close>
  that answers with three matches of today, the loop ends with exactly the three
  reconciled matches of \<open>B\<close>, the count 3 and the flag set.
\<close>

theorem rate_limited_league:
  assumes "l \<in> set lgs"
    and "fetch e (url (snd l) today tomorrow) = Response 429 bd"
  shows "hasRateLimit (fst (fetch_leagues e today tomorrow lgs (b, st, tr))) \<and>
         snd (snd (fetch_leagues e today tomorrow lgs (b, st, tr))) =
           tr @ map (\<lambda>x. Fetch (url (snd x) today tomorrow)) lgs \<and>
         league_body e today tomorrow l (b, st) = Inr (b\<lparr>hasRateLimit := True\<rparr>, st) \<and>
         (\<forall>B ms. lgs = [l, B] \<and>
                 fetch e (url (snd B) today tomorrow) = Response 200 (Json (Some ms)) \<and>
                 length ms = 3 \<and>
                 (\<forall>m\<in>set ms. londonYMD e (m_utcDate m) = Inr today) \<longrightarrow>
            fetch_leagues e today tomorrow lgs (no_batch, st, []) =
              (\<lparr>totalMatches = 3, allMatches = fst (normalize_all (fst B) ms st),
                hasRateLimit = True\<rparr>,
               snd (normalize_all (fst B) ms st),
               [Fetch (url (snd l) today tomorrow), Fetch (url (snd B) today tomorrow)]) \<and>
            length (fst (normalize_all (fst B) ms st)) = 3)"
proof -
  have a: "hasRateLimit (fst (fetch_leagues e today tomorrow lgs (b, st, tr)))"
    using assms by (rule fetch_leagues_flag_set)
  have c: "league_body e today tomorrow l (b, st) = Inr (b\<lparr>hasRateLimit := True\<rparr>, st)"
    using assms(2) by (rule league_body_429)
  have d: "fetch_leagues e today tomorrow [l, B] (no_batch, st, []) =
              (\<lparr>totalMatches = 3, allMatches = fst (normalize_all (fst B) ms st),
                hasRateLimit = True\<rparr>,
               snd (normalize_all (fst B) ms st),
               [Fetch (url (snd l) today tomorrow), Fetch (url (snd B) today tomorrow)])"
    if r: "fetch e (url (snd B) today tomorrow) = Response 200 (Json (Some ms))"
      and n: "length ms = 3"
      and v: "\<forall>m\<in>set ms. londonYMD e (m_utcDate m) = Inr today"
    for B ms
  proof -
    have s1: "league_step e today tomorrow l (no_batch, st, []) =
              (no_batch\<lparr>hasRateLimit := True\<rparr>, st, [Fetch (url (snd l) today tomorrow)])"
      using league_body_429 [OF assms(2), of no_batch st] by (simp add: league_step_def)
    have len: "length (fst (normalize_all (fst B) ms st)) = 3"
      using n by (simp add: normalize_all_length)
    then have ne: "fst (normalize_all (fst B) ms st) \<noteq> []" by auto
    have "league_body e today tomorrow B (no_batch\<lparr>hasRateLimit := True\<rparr>, st) =
            Inr (\<lparr>totalMatches = 3, allMatches = fst (normalize_all (fst B) ms st),
                  hasRateLimit = True\<rparr>, snd (normalize_all (fst B) ms st))"
      using r len ne filter_today_all [OF v]
      by (cases B) (simp add: league_body_def res_ok_def split_beta no_batch_def)
    then show ?thesis using s1 by (simp add: league_step_def)
  qed
  show ?thesis
    using a c d by (simp add: fetch_leagues_events normalize_all_length)
qed

text \<open>
  The theorem at the leagues \<open>PL\<close> and \<open>BL1\<close>, where the request for \<open>PL\<close> is limited and
  the one for \<open>BL1\<close> gives three fixtures of 4 May 2024.
\<close>

theorem rate_limited_league_witness:
  "(''PL'', 2021) \<in> set [(''PL'', 2021), (''BL1'', 2002)] \<and>
   fetch (ex_env ex_fetch_limited 1714834800000) (url 2021 ''2024-05-04'' ''2024-05-06'')
     = Response 429 JsonThrows \<and>
   fetch (ex_env ex_fetch_limited 1714834800000) (url 2002 ''2024-05-04'' ''2024-05-06'')
     = Response 200 (Json (Some ex_three)) \<and>
   length ex_three = 3 \<and>
   list_all (\<lambda>m. londonYMD (ex_env ex_fetch_limited 1714834800000) (m_utcDate m) = Inr ''2024-05-04'')
     ex_three \<and>
   fetch_leagues (ex_env ex_fetch_limited 1714834800000) ''2024-05-04'' ''2024-05-06''
       [(''PL'', 2021), (''BL1'', 2002)] (no_batch, initial_state, []) =
     (\<lparr>totalMatches = 3, allMatches = fst (normalize_all ''BL1'' ex_three initial_state),
       hasRateLimit = True\<rparr>,
      snd (normalize_all ''BL1'' ex_three initial_state),
      [Fetch (url 2021 ''2024-05-04'' ''2024-05-06''),
       Fetch (url 2002 ''2024-05-04'' ''2024-05-06'')]) \<and>
   map status_short (fst (normalize_all ''BL1'' ex_three initial_state))
     = [SStr ''LIVE'', SStr ''NS'', SStr ''FT'']"
proof -
  have h: "\<forall>m\<in>set ex_three.
      londonYMD (ex_env ex_fetch_limited 1714834800000) (m_utcDate m) = Inr ''2024-05-04''"
    by (simp add: ex_three_def londonYMD_def)
  have r: "fetch (ex_env ex_fetch_limited 1714834800000) (url 2002 ''2024-05-04'' ''2024-05-06'')
     = Response 200 (Json (Some ex_three))"
    by (simp add: ex_fetch_limited_def)
  have s: "map status_short (fst (normalize_all ''BL1'' ex_three initial_state))
     = [SStr ''LIVE'', SStr ''NS'', SStr ''FT'']"
    by (simp add: ex_three_def normalize_def Let_def split_beta reconcile_status_def
        initial_state_def)
  show ?thesis
    using rate_limited_league [of "(''PL'', 2021)" "[(''PL'', 2021), (''BL1'', 2002)]"
        "ex_env ex_fetch_limited 1714834800000" "''2024-05-04''" "''2024-05-06''" JsonThrows
        no_batch initial_state "[]"] h r s
    by (simp add: ex_fetch_limited_def list_all_iff) (simp add: ex_three_def)
qed

section \<open>Properties of loadTodaysMatches\<close>

lemma set_isLoading_back: "\<not> isLoading st \<Longrightarrow> st\<lparr>isLoading := True\<rparr>\<lparr>isLoading := False\<rparr> = st"
  by (cases st) simp

lemma shouldUseCache_isLoading:
  "shouldUseCache today now (st\<lparr>isLoading := x\<rparr>) = shouldUseCache today now st"
  by (simp add: shouldUseCache_def)

lemma load_on_cache_hit:
  assumes "\<not> isLoading st"
    and "shouldUseCache (todayLondonISO e) (clock_now e) st"
  shows "loadTodaysMatches e st =
           (st, [HideNoMatches, Display (cachedMatches st), UpdateLastUpdated])"
  using assms
  by (simp add: loadTodaysMatches_def Let_def shouldUseCache_isLoading set_isLoading_back)

lemma load_events_miss:
  assumes "\<not> isLoading st"
    and "\<not> shouldUseCache (todayLondonISO e) (clock_now e) st"
  shows "\<exists>rest. snd (loadTodaysMatches e st) =
           map (\<lambda>l. Fetch (url (snd l) (todayLondonISO e) (tomorrowLondonISO e))) leagues @ rest"
proof -
  obtain b st1 tr where f:
    "fetch_batch e (todayLondonISO e) (tomorrowLondonISO e) (st\<lparr>isLoading := True\<rparr>) = (b, st1, tr)"
    by (cases "fetch_batch e (todayLondonISO e) (tomorrowLondonISO e) (st\<lparr>isLoading := True\<rparr>)") auto
  have tr: "tr = map (\<lambda>l. Fetch (url (snd l) (todayLondonISO e) (tomorrowLondonISO e))) leagues"
    using fetch_batch_events [of e "todayLondonISO e" "tomorrowLondonISO e" "st\<lparr>isLoading := True\<rparr>"] f
    by simp
  show ?thesis
    using assms f tr
    by (simp add: loadTodaysMatches_def Let_def shouldUseCache_isLoading)
qed

text \<open>
  C4: when no load is in flight, \<open>loadTodaysMatches\<close> displays the cached matches
  without a single request if and only if the cache is not empty, its date is today and
  less than 120000 milliseconds have passed since the last fetch. Whether a cached match
  is live plays no part.
\<close>

theorem cache_reuse_decision:
  assumes "\<not> isLoading st"
  shows "((\<forall>u. Fetch u \<notin> set (snd (loadTodaysMatches e st))) \<and>
          Display (cachedMatches st) \<in> set (snd (loadTodaysMatches e st))) =
         (cachedMatches st \<noteq> [] \<and> cachedDate st = todayLondonISO e \<and>
          clock_now e - lastFetchTime st < 120000)"
proof (cases "shouldUseCache (todayLondonISO e) (clock_now e) st")
  case True
  then show ?thesis
    using load_on_cache_hit [OF assms True]
    by (simp add: shouldUseCache_def CACHE_DURATION_def)
next
  case False
  obtain rest where "snd (loadTodaysMatches e st) =
      map (\<lambda>l. Fetch (url (snd l) (todayLondonISO e) (tomorrowLondonISO e))) leagues @ rest"
    using load_events_miss [OF assms False] by blast
  then have "Fetch (url 2021 (todayLondonISO e) (tomorrowLondonISO e)) \<in> set (snd (loadTodaysMatches e st))"
    by (simp add: leagues_def)
  then have "\<not> (\<forall>u. Fetch u \<notin> set (snd (loadTodaysMatches e st)))" by blast
  moreover have "\<not> (cachedMatches st \<noteq> [] \<and> cachedDate st = todayLondonISO e \<and>
          clock_now e - lastFetchTime st < 120000)"
    using False by (simp add: shouldUseCache_def CACHE_DURATION_def)
  ultimately show ?thesis by blast
qed

text \<open>
  The theorem at a cache that holds a live match and was fetched 60 seconds ago: it is
  reused.
\<close>

theorem cache_reuse_decision_witness:
  "\<not> isLoading (ex_cached 1714834740000) \<and>
   hasLiveMatches (cachedMatches (ex_cached 1714834740000)) \<and>
   cachedMatches (ex_cached 1714834740000) \<noteq> [] \<and>
   cachedDate (ex_cached 1714834740000) = todayLondonISO (ex_env ex_fetch_empty 1714834800000) \<and>
   clock_now (ex_env ex_fetch_empty 1714834800000) - lastFetchTime (ex_cached 1714834740000) < 120000 \<and>
   (\<forall>u. Fetch u \<notin> set (snd (loadTodaysMatches (ex_env ex_fetch_empty 1714834800000)
                                 (ex_cached 1714834740000)))) \<and>
   Display (cachedMatches (ex_cached 1714834740000))
     \<in> set (snd (loadTodaysMatches (ex_env ex_fetch_empty 1714834800000) (ex_cached 1714834740000)))"
  using cache_reuse_decision [of "ex_cached 1714834740000" "ex_env ex_fetch_empty 1714834800000"]
  by (simp add: todayLondonISO_def hasLiveMatches_def ex_live_def)

text \<open>
  C7: when no load is in flight, the "no matches" message is shown if and only if the
  fetch loop found no match and the state holds no non-empty cache of today. When it
  holds one and the loop found no match, rate limited or not, the cached matches are
  displayed and the cache is kept.
\<close>

theorem empty_state_iff:
  assumes "\<not> isLoading st"
  shows "(ShowNoMatches \<in> set (snd (loadTodaysMatches e st))) =
           (totalMatches (fst (fetch_batch e (todayLondonISO e) (tomorrowLondonISO e)
                                  (st\<lparr>isLoading := True\<rparr>))) = 0 \<and>
            \<not> (cachedMatches st \<noteq> [] \<and> cachedDate st = todayLondonISO e)) \<and>
         (cachedMatches st \<noteq> [] \<and> cachedDate st = todayLondonISO e \<and>
          totalMatches (fst (fetch_batch e (todayLondonISO e) (tomorrowLondonISO e)
                                  (st\<lparr>isLoading := True\<rparr>))) = 0 \<longrightarrow>
            Display (cachedMatches st) \<in> set (snd (loadTodaysMatches e st)) \<and>
            cachedMatches (fst (loadTodaysMatches e st)) = cachedMatches st)"
proof -
  obtain b st1 tr where f:
    "fetch_batch e (todayLondonISO e) (tomorrowLondonISO e) (st\<lparr>isLoading := True\<rparr>) = (b, st1, tr)"
    by (cases "fetch_batch e (todayLondonISO e) (tomorrowLondonISO e) (st\<lparr>isLoading := True\<rparr>)") auto
  have tr: "tr = map (\<lambda>l. Fetch (url (snd l) (todayLondonISO e) (tomorrowLondonISO e))) leagues"
    using fetch_batch_events [of e "todayLondonISO e" "tomorrowLondonISO e" "st\<lparr>isLoading := True\<rparr>"] f
    by simp
  have sc: "cachedMatches st1 = cachedMatches st \<and> cachedDate st1 = cachedDate st"
    using fetch_batch_same_cache [of e "todayLondonISO e" "tomorrowLondonISO e" "st\<lparr>isLoading := True\<rparr>"] f
    by (simp add: same_cache_def)
  have no: "ShowNoMatches \<notin> set tr" using tr by auto
  show ?thesis
  proof (cases "shouldUseCache (todayLondonISO e) (clock_now e) st")
    case True
    then show ?thesis
      using load_on_cache_hit [OF assms True] by (simp add: shouldUseCache_def)
  next
    case False
    then show ?thesis
      using assms f sc no
      by (auto simp: loadTodaysMatches_def Let_def shouldUseCache_isLoading)
  qed
qed

text \<open>
  The theorem at a provider without fixtures: from the initial state the message is
  shown; from a state with a cache of today that is an hour old the cached match is
  displayed and the message is not shown.
\<close>

theorem empty_state_iff_witness:
  "\<not> isLoading initial_state \<and>
   totalMatches (fst (fetch_batch (ex_env ex_fetch_empty 1714834800000)
      (todayLondonISO (ex_env ex_fetch_empty 1714834800000))
      (tomorrowLondonISO (ex_env ex_fetch_empty 1714834800000))
      (initial_state\<lparr>isLoading := True\<rparr>))) = 0 \<and>
   cachedMatches initial_state = [] \<and>
   ShowNoMatches \<in> set (snd (loadTodaysMatches (ex_env ex_fetch_empty 1714834800000) initial_state)) \<and>
   \<not> isLoading (ex_cached 1714831200000) \<and>
   cachedMatches (ex_cached 1714831200000) \<noteq> [] \<and>
   cachedDate (ex_cached 1714831200000) = todayLondonISO (ex_env ex_fetch_empty 1714834800000) \<and>
   totalMatches (fst (fetch_batch (ex_env ex_fetch_empty 1714834800000)
      (todayLondonISO (ex_env ex_fetch_empty 1714834800000))
      (tomorrowLondonISO (ex_env ex_fetch_empty 1714834800000))
      ((ex_cached 1714831200000)\<lparr>isLoading := True\<rparr>))) = 0 \<and>
   Display (cachedMatches (ex_cached 1714831200000))
     \<in> set (snd (loadTodaysMatches (ex_env ex_fetch_empty 1714834800000) (ex_cached 1714831200000))) \<and>
   ShowNoMatches
     \<notin> set (snd (loadTodaysMatches (ex_env ex_fetch_empty 1714834800000) (ex_cached 1714831200000)))"
  using empty_state_iff [of initial_state "ex_env ex_fetch_empty 1714834800000"]
    empty_state_iff [of "ex_cached 1714831200000" "ex_env ex_fetch_empty 1714834800000"]
  by (simp add: fetch_batch_empty no_batch_def todayLondonISO_def)
     (simp add: initial_state_def)

text \<open>
  C10: when no load is in flight and the cache is reused, \<open>loadTodaysMatches\<close> hides the
  message, displays the cached matches, updates the "last updated" text and leaves the
  state as it was: \<open>cachedMatches\<close>, \<open>cachedDate\<close>, \<open>lastFetchTime\<close>, \<open>lastKnownScores\<close>
  and \<open>lastKnownStatus\<close> are unchanged, so the age of the cache still counts from the
  last fetch.
\<close>

theorem load_cache_hit_frame:
  assumes "\<not> isLoading st"
    and "shouldUseCache (todayLondonISO e) (clock_now e) st"
  shows "snd (loadTodaysMatches e st) =
           [HideNoMatches, Display (cachedMatches st), UpdateLastUpdated] \<and>
         fst (loadTodaysMatches e st) = st \<and>
         cachedMatches (fst (loadTodaysMatches e st)) = cachedMatches st \<and>
         cachedDate (fst (loadTodaysMatches e st)) = cachedDate st \<and>
         lastFetchTime (fst (loadTodaysMatches e st)) = lastFetchTime st \<and>
         lastKnownScores (fst (loadTodaysMatches e st)) = lastKnownScores st \<and>
         lastKnownStatus (fst (loadTodaysMatches e st)) = lastKnownStatus st"
  using load_on_cache_hit [OF assms] by simp

text \<open>The theorem at a cache fetched 60 seconds ago.\<close>

theorem load_cache_hit_frame_witness:
  "\<not> isLoading (ex_cached 1714834740000) \<and>
   shouldUseCache (todayLondonISO (ex_env ex_fetch_limited 1714834800000))
     (clock_now (ex_env ex_fetch_limited 1714834800000)) (ex_cached 1714834740000) \<and>
   snd (loadTodaysMatches (ex_env ex_fetch_limited 1714834800000) (ex_cached 1714834740000)) =
     [HideNoMatches, Display [ex_live], UpdateLastUpdated] \<and>
   fst (loadTodaysMatches (ex_env ex_fetch_limited 1714834800000) (ex_cached 1714834740000)) =
     ex_cached 1714834740000 \<and>
   lastFetchTime (fst (loadTodaysMatches (ex_env ex_fetch_limited 1714834800000)
                         (ex_cached 1714834740000))) = 1714834740000"
  using load_cache_hit_frame [of "ex_cached 1714834740000" "ex_env ex_fetch_limited 1714834800000"]
  by (simp add: shouldUseCache_def todayLondonISO_def CACHE_DURATION_def)

section \<open>Properties of the scheduler\<close>

lemma clear_timer_fields [simp]:
  "app (clear_timer v st) = app st"
  "lastLondonDate (clear_timer v st) = lastLondonDate st"
  "kickoffTimeout (clear_timer v st) = kickoffTimeout st"
  "autoRefreshInterval (clear_timer v st) = autoRefreshInterval st"
  "currentIntervalMs (clear_timer v st) = currentIntervalMs st"
  "next_handle (clear_timer v st) = next_handle st"
  by (simp_all add: clear_timer_def split: option.splits)

lemma clear_timer_timers:
  "timers (clear_timer v st) h = (if v = Some h then None else timers st h)"
  by (auto simp: clear_timer_def split: option.splits)

lemma clear_timer_owned: "timers_owned st \<Longrightarrow> timers_owned (clear_timer v st)"
  by (auto simp: timers_owned_def clear_timer_timers dom_def split: if_splits)

lemma stop_clears_all:
  assumes "timers_owned st"
  shows "timers (clear_timer (kickoffTimeout st) (clear_timer (autoRefreshInterval st) st)) = Map.empty"
proof
  fix h
  show "timers (clear_timer (kickoffTimeout st) (clear_timer (autoRefreshInterval st) st)) h = None"
  proof (cases "timers st h")
    case None
    then show ?thesis by (simp add: clear_timer_timers)
  next
    case (Some t)
    then have "h \<in> dom (timers st)" by auto
    then have "autoRefreshInterval st = Some h \<or> kickoffTimeout st = Some h"
      using assms by (auto simp: timers_owned_def)
    then show ?thesis by (auto simp: clear_timer_timers)
  qed
qed

lemma tick_rollover_owned: "timers_owned st \<Longrightarrow> timers_owned (tick_rollover e st)"
proof -
  assume o: "timers_owned st"
  have "timers_owned (st\<lparr>app := resetDailyState (app st), lastLondonDate := d\<rparr>)" for d
    using o by (simp add: timers_owned_def)
  then show ?thesis
    using o by (auto simp: tick_rollover_def Let_def dest: clear_timer_owned)
qed

lemma app_update_owned: "timers_owned st \<Longrightarrow> timers_owned (st\<lparr>app := a\<rparr>)"
  by (simp add: timers_owned_def)

lemma adjustInterval_owned: "timers_owned st \<Longrightarrow> timers_owned (adjustInterval ms st)"
  by (auto simp: adjustInterval_def Let_def timers_owned_def clear_timer_timers dom_def
      split: if_splits)

lemma scheduleKickoffRefresh_owned:
  "timers_owned st \<Longrightarrow> timers_owned (scheduleKickoffRefresh e ms st)"
  by (auto simp: scheduleKickoffRefresh_def Let_def timers_owned_def clear_timer_timers dom_def
      split: if_splits option.splits)

lemma tick_finish_app: "app (fst (tick_finish e tr st)) = app st"
  by (simp add: tick_finish_def Let_def adjustInterval_def scheduleKickoffRefresh_def
      split: option.splits)

lemma tick_finish_owned: "timers_owned st \<Longrightarrow> timers_owned (fst (tick_finish e tr st))"
  by (simp add: tick_finish_def Let_def clear_timer_owned adjustInterval_owned
      scheduleKickoffRefresh_owned)

lemma tick_owned: "timers_owned st \<Longrightarrow> timers_owned (fst (tick e st))"
  by (simp add: tick_def Let_def split_beta tick_finish_owned app_update_owned tick_rollover_owned)

lemma sched_init_owned: "timers_owned (sched_init e a h)"
  by (simp add: timers_owned_def sched_init_def)

lemma tick_finish_events: "\<exists>rest. snd (tick_finish e tr st) = tr @ rest"
  by (simp add: tick_finish_def Let_def)

lemma tick_rollover_app:
  "london_ymd e (clock_tick_today e) \<noteq> lastLondonDate st \<Longrightarrow>
   app (tick_rollover e st) = resetDailyState (app st)"
  by (simp add: tick_rollover_def Let_def)

lemma tick_rollover_handles:
  "autoRefreshInterval (tick_rollover e st) = autoRefreshInterval st"
  "kickoffTimeout (tick_rollover e st) = kickoffTimeout st"
  by (simp_all add: tick_rollover_def Let_def)

lemma tick_rollover_timers:
  "timers (tick_rollover e st) h = None \<or> timers (tick_rollover e st) h = timers st h"
  by (simp add: tick_rollover_def Let_def clear_timer_timers)

lemma tick_events_after_rollover:
  assumes "london_ymd e (clock_tick_today e) \<noteq> lastLondonDate st"
    and "\<not> isLoading (app st)"
  shows "\<exists>rest. snd (tick e st) =
           map (\<lambda>l. Fetch (url (snd l) (todayLondonISO e) (tomorrowLondonISO e))) leagues @ rest"
proof -
  let ?a = "app (tick_rollover e st)"
  have a: "?a = resetDailyState (app st)" using assms(1) by (rule tick_rollover_app)
  have n: "\<not> isLoading ?a" using assms(2) by (simp add: a resetDailyState_def)
  have m: "\<not> shouldUseCache (todayLondonISO e) (clock_now e) ?a"
    by (simp add: a resetDailyState_def shouldUseCache_def)
  obtain r1 where r1: "snd (loadTodaysMatches e ?a) =
      map (\<lambda>l. Fetch (url (snd l) (todayLondonISO e) (tomorrowLondonISO e))) leagues @ r1"
    using load_events_miss [OF n m] by blast
  obtain r2 where r2: "snd (tick e st) = snd (loadTodaysMatches e ?a) @ r2"
    using tick_finish_events [of e "snd (loadTodaysMatches e ?a)"
        "(tick_rollover e st)\<lparr>app := fst (loadTodaysMatches e ?a)\<rparr>"]
    by (auto simp: tick_def Let_def split_beta)
  show ?thesis using r1 r2 by simp
qed

lemma ex_sched_sel [simp]:
  "app ex_sched = ex_cached 1714834800000"
  "lastLondonDate ex_sched = ''2024-05-04''"
  "kickoffTimeout ex_sched = Some 2"
  "autoRefreshInterval ex_sched = Some 1"
  "timers ex_sched = [1 \<mapsto> Interval 60000, 2 \<mapsto> Timeout 5000]"
  by (simp_all add: ex_sched_def)

lemma ex_sched_owned: "timers_owned ex_sched"
  by (simp add: timers_owned_def)

lemma ex_rollover:
  "tick_rollover (ex_env f 1714899600000) ex_sched =
     clear_timer (Some 2)
       (ex_sched\<lparr>app := resetDailyState (ex_cached 1714834800000), lastLondonDate := ''2024-05-05''\<rparr>)"
  by (simp add: tick_rollover_def Let_def)

lemma ex_load_next_day:
  "loadTodaysMatches (ex_env ex_fetch_empty 1714899600000) (resetDailyState (ex_cached 1714834800000)) =
     (resetDailyState (ex_cached 1714834800000),
      map (\<lambda>l. Fetch (url (snd l) ''2024-05-05'' ''2024-05-06'')) leagues
        @ [ShowNoMatches] @ [UpdateLastUpdated])"
proof -
  have n: "\<not> isLoading (resetDailyState (ex_cached 1714834800000))"
    by (simp add: resetDailyState_def)
  show ?thesis
    using n
    by (simp add: loadTodaysMatches_def Let_def shouldUseCache_def fetch_batch_empty
        todayLondonISO_def tomorrowLondonISO_def no_batch_def set_isLoading_back)
       (simp add: resetDailyState_def)
qed

text \<open>
  The stop branch of \<open>tick\<close>: when \<open>cachedMatches\<close> itself is empty after the load of a
  tick, then at the end of the tick the interval timer held in \<open>autoRefreshInterval\<close> and
  the kick-off timer held in \<open>kickoffTimeout\<close> are no longer armed, the tick has armed
  no timer (every timer still armed was armed before the tick, unchanged) and has left
  both handles as they were. Since the timers that call \<open>tick\<close> are the ones these two
  handles hold, none is armed any more. The test looks at the length of the list only,
  not at \<open>cachedDate\<close>.
\<close>

lemma tick_stops_when_empty:
  assumes "cachedMatches (app (fst (tick e st))) = []"
  shows "(\<forall>h. autoRefreshInterval st = Some h \<longrightarrow> timers (fst (tick e st)) h = None) \<and>
         (\<forall>h. kickoffTimeout st = Some h \<longrightarrow> timers (fst (tick e st)) h = None) \<and>
         (\<forall>h. timers (fst (tick e st)) h = None \<or> timers (fst (tick e st)) h = timers st h) \<and>
         autoRefreshInterval (fst (tick e st)) = autoRefreshInterval st \<and>
         kickoffTimeout (fst (tick e st)) = kickoffTimeout st \<and>
         (timers_owned st \<longrightarrow> timers (fst (tick e st)) = Map.empty)"
proof -
  obtain a tr where l: "loadTodaysMatches e (app (tick_rollover e st)) = (a, tr)"
    by (cases "loadTodaysMatches e (app (tick_rollover e st))") auto
  let ?s = "(tick_rollover e st)\<lparr>app := a\<rparr>"
  have t: "tick e st = tick_finish e tr ?s"
    using l by (simp add: tick_def Let_def)
  have "app (fst (tick e st)) = a" unfolding t by (simp add: tick_finish_app)
  then have emp: "cachedMatches (app ?s) = []" using assms by simp
  have f: "fst (tick e st) = clear_timer (kickoffTimeout ?s) (clear_timer (autoRefreshInterval ?s) ?s)"
    unfolding t using emp by (simp add: tick_finish_def)
  have own: "timers_owned st \<longrightarrow> timers (fst (tick e st)) = Map.empty"
  proof
    assume "timers_owned st"
    then have "timers_owned ?s" by (intro app_update_owned tick_rollover_owned)
    then show "timers (fst (tick e st)) = Map.empty" unfolding f by (rule stop_clears_all)
  qed
  have keep: "timers (fst (tick e st)) h = None \<or> timers (fst (tick e st)) h = timers st h" for h
    using tick_rollover_timers [of e st h] unfolding f by (auto simp: clear_timer_timers)
  show ?thesis
    using own keep unfolding f by (simp add: clear_timer_timers tick_rollover_handles)
qed

text \<open>
  The lemma at a scheduler with both timers armed whose next tick falls on the next
  day, when the provider has no fixtures.
\<close>

lemma tick_stops_when_empty_example:
  "timers_owned ex_sched \<and>
   autoRefreshInterval ex_sched = Some 1 \<and>
   kickoffTimeout ex_sched = Some 2 \<and>
   timers ex_sched 1 = Some (Interval 60000) \<and>
   timers ex_sched 2 = Some (Timeout 5000) \<and>
   cachedMatches (app (fst (tick (ex_env ex_fetch_empty 1714899600000) ex_sched))) = [] \<and>
   timers (fst (tick (ex_env ex_fetch_empty 1714899600000) ex_sched)) 1 = None \<and>
   timers (fst (tick (ex_env ex_fetch_empty 1714899600000) ex_sched)) 2 = None \<and>
   timers (fst (tick (ex_env ex_fetch_empty 1714899600000) ex_sched)) = Map.empty"
proof -
  have c: "cachedMatches (app (fst (tick (ex_env ex_fetch_empty 1714899600000) ex_sched))) = []"
    by (simp add: tick_def Let_def ex_rollover ex_load_next_day tick_finish_app)
       (simp add: resetDailyState_def)
  show ?thesis
    using tick_stops_when_empty [OF c] c ex_sched_owned by simp
qed

lemma ex_load_stale:
  "loadTodaysMatches (ex_env ex_fetch_empty 1714899600000) (ex_cached 1714834800000) =
     (ex_cached 1714834800000,
      map (\<lambda>l. Fetch (url (snd l) ''2024-05-05'' ''2024-05-06'')) leagues
        @ [ShowNoMatches] @ [UpdateLastUpdated])"
proof -
  have n: "\<not> isLoading (ex_cached 1714834800000)" by simp
  show ?thesis
    by (simp add: loadTodaysMatches_def Let_def shouldUseCache_def fetch_batch_empty
        todayLondonISO_def tomorrowLondonISO_def no_batch_def set_isLoading_back [OF n])
qed

lemma ex_start_stale:
  "startAutoRefresh (ex_env ex_fetch_empty 1714899600000) (ex_cached 1714834800000) 7 =
     (\<lparr>app = ex_cached 1714834800000, lastLondonDate = ''2024-05-05'', kickoffTimeout = None,
       currentIntervalMs = 60000, autoRefreshInterval = Some 7,
       timers = [7 \<mapsto> Interval 60000], next_handle = 8\<rparr>,
      map (\<lambda>l. Fetch (url (snd l) ''2024-05-05'' ''2024-05-06'')) leagues
        @ [ShowNoMatches, UpdateLastUpdated, UpdateDateTime, UpdateLastUpdated])"
  by (simp add: startAutoRefresh_def tick_def tick_rollover_def sched_init_def todayLondonISO_def
      Let_def ex_load_stale tick_finish_def hasLiveMatches_def hasUpcomingSoon_def not_NS_def
      ex_live_def adjustInterval_def scheduleKickoffRefresh_def clear_timer_def)

lemma ex_tick_stale:
  "tick (ex_env ex_fetch_empty 1714899600000)
     \<lparr>app = ex_cached 1714834800000, lastLondonDate = ''2024-05-05'', kickoffTimeout = None,
       currentIntervalMs = 60000, autoRefreshInterval = Some 7,
       timers = [7 \<mapsto> Interval 60000], next_handle = 8\<rparr> =
     (\<lparr>app = ex_cached 1714834800000, lastLondonDate = ''2024-05-05'', kickoffTimeout = None,
       currentIntervalMs = 60000, autoRefreshInterval = Some 7,
       timers = [7 \<mapsto> Interval 60000], next_handle = 8\<rparr>,
      map (\<lambda>l. Fetch (url (snd l) ''2024-05-05'' ''2024-05-06'')) leagues
        @ [ShowNoMatches, UpdateLastUpdated, UpdateDateTime, UpdateLastUpdated])"
  by (simp add: tick_def tick_rollover_def
      Let_def ex_load_stale tick_finish_def hasLiveMatches_def hasUpcomingSoon_def not_NS_def
      ex_live_def adjustInterval_def scheduleKickoffRefresh_def clear_timer_def)

text \<open>
  C9 (the claim fails on the code): the first load ran on 4 May 2024 and cached a match
  of that day; \<open>startAutoRefresh\<close> runs on 5 May, so its date is the new day and the
  first tick sees no change of date. The provider has no fixture for 5 May. The load
  finds no match and no cache of the day, and shows the "no matches" message; but
  \<open>tick\<close> tests only the length of \<open>cachedMatches\<close>, which still holds the match of
  4 May, so it arms the one minute interval timer instead of stopping. The next tick
  does the same: the message is shown again and the timer stays armed.
\<close>

theorem stale_cache_keeps_polling:
  "cachedMatches (ex_cached 1714834800000) = [ex_live] \<and>
   cachedDate (ex_cached 1714834800000) = ''2024-05-04'' \<and>
   todayLondonISO (ex_env ex_fetch_empty 1714899600000) = ''2024-05-05'' \<and>
   \<not> isLoading (ex_cached 1714834800000) \<and>
   totalMatches (fst (fetch_batch (ex_env ex_fetch_empty 1714899600000) ''2024-05-05'' ''2024-05-06''
      ((ex_cached 1714834800000)\<lparr>isLoading := True\<rparr>))) = 0 \<and>
   ShowNoMatches \<in> set (snd (startAutoRefresh (ex_env ex_fetch_empty 1714899600000)
                                (ex_cached 1714834800000) 7)) \<and>
   (\<forall>ms. Display ms \<notin> set (snd (startAutoRefresh (ex_env ex_fetch_empty 1714899600000)
                                (ex_cached 1714834800000) 7))) \<and>
   autoRefreshInterval (fst (startAutoRefresh (ex_env ex_fetch_empty 1714899600000)
                                (ex_cached 1714834800000) 7)) = Some 7 \<and>
   timers (fst (startAutoRefresh (ex_env ex_fetch_empty 1714899600000)
                                (ex_cached 1714834800000) 7)) 7 = Some (Interval 60000) \<and>
   ShowNoMatches \<in> set (snd (tick (ex_env ex_fetch_empty 1714899600000)
       (fst (startAutoRefresh (ex_env ex_fetch_empty 1714899600000) (ex_cached 1714834800000) 7)))) \<and>
   timers (fst (tick (ex_env ex_fetch_empty 1714899600000)
       (fst (startAutoRefresh (ex_env ex_fetch_empty 1714899600000) (ex_cached 1714834800000) 7)))) 7
     = Some (Interval 60000)"
  by (simp add: ex_start_stale ex_tick_stale fetch_batch_empty no_batch_def todayLondonISO_def
      leagues_def)

text \<open>
  C6 (amended): when the London date of a tick differs from the date of the previous
  one, the tick, before it loads, empties the cache (\<open>cachedMatches\<close>, \<open>cachedDate\<close>,
  \<open>lastFetchTime\<close>), makes every configured league active, records the new date and
  clears the pending kick-off timer; it leaves \<open>lastKnownScores\<close> and \<open>lastKnownStatus\<close>
  as they were. The load of the tick runs on that state, and when no load is in flight
  it requests every configured league.
\<close>

theorem tick_day_rollover:
  assumes "london_ymd e (clock_tick_today e) \<noteq> lastLondonDate st"
  shows "cachedMatches (app (tick_rollover e st)) = [] \<and>
         cachedDate (app (tick_rollover e st)) = [] \<and>
         lastFetchTime (app (tick_rollover e st)) = 0 \<and>
         activeLeagues (app (tick_rollover e st)) = set (map fst leagues) \<and>
         lastKnownScores (app (tick_rollover e st)) = lastKnownScores (app st) \<and>
         lastKnownStatus (app (tick_rollover e st)) = lastKnownStatus (app st) \<and>
         lastLondonDate (tick_rollover e st) = london_ymd e (clock_tick_today e) \<and>
         (\<forall>h. kickoffTimeout st = Some h \<longrightarrow> timers (tick_rollover e st) h = None) \<and>
         app (fst (tick e st)) = fst (loadTodaysMatches e (resetDailyState (app st))) \<and>
         (\<not> isLoading (app st) \<longrightarrow>
            (\<exists>rest. snd (tick e st) =
               map (\<lambda>l. Fetch (url (snd l) (todayLondonISO e) (tomorrowLondonISO e))) leagues @ rest))"
proof -
  have "\<not> isLoading (app st) \<longrightarrow>
            (\<exists>rest. snd (tick e st) =
               map (\<lambda>l. Fetch (url (snd l) (todayLondonISO e) (tomorrowLondonISO e))) leagues @ rest)"
    using tick_events_after_rollover [OF assms] by blast
  moreover have "app (fst (tick e st)) = fst (loadTodaysMatches e (resetDailyState (app st)))"
    using tick_rollover_app [OF assms] by (simp add: tick_def Let_def split_beta tick_finish_app)
  ultimately show ?thesis
    using assms
    by (simp add: tick_rollover_def Let_def resetDailyState_def clear_timer_timers)
qed

text \<open>The theorem at a scheduler of 4 May 2024 whose next tick is at 10:00 on 5 May.\<close>

theorem tick_day_rollover_witness:
  "london_ymd (ex_env ex_fetch_empty 1714899600000) (clock_tick_today (ex_env ex_fetch_empty 1714899600000))
     \<noteq> lastLondonDate ex_sched \<and>
   cachedMatches (app ex_sched) = [ex_live] \<and>
   kickoffTimeout ex_sched = Some 2 \<and>
   timers ex_sched 2 = Some (Timeout 5000) \<and>
   \<not> isLoading (app ex_sched) \<and>
   cachedMatches (app (tick_rollover (ex_env ex_fetch_empty 1714899600000) ex_sched)) = [] \<and>
   cachedDate (app (tick_rollover (ex_env ex_fetch_empty 1714899600000) ex_sched)) = [] \<and>
   lastFetchTime (app (tick_rollover (ex_env ex_fetch_empty 1714899600000) ex_sched)) = 0 \<and>
   lastKnownScores (app (tick_rollover (ex_env ex_fetch_empty 1714899600000) ex_sched))
     = [''101'' \<mapsto> (2, 1)] \<and>
   lastLondonDate (tick_rollover (ex_env ex_fetch_empty 1714899600000) ex_sched) = ''2024-05-05'' \<and>
   timers (tick_rollover (ex_env ex_fetch_empty 1714899600000) ex_sched) 2 = None \<and>
   (\<exists>rest. snd (tick (ex_env ex_fetch_empty 1714899600000) ex_sched) =
      map (\<lambda>l. Fetch (url (snd l) ''2024-05-05'' ''2024-05-06'')) leagues @ rest)"
proof -
  have d: "london_ymd (ex_env ex_fetch_empty 1714899600000)
        (clock_tick_today (ex_env ex_fetch_empty 1714899600000)) \<noteq> lastLondonDate ex_sched"
    by simp
  have t: "todayLondonISO (ex_env ex_fetch_empty 1714899600000) = ''2024-05-05''"
    "tomorrowLondonISO (ex_env ex_fetch_empty 1714899600000) = ''2024-05-06''"
    by (simp_all add: todayLondonISO_def tomorrowLondonISO_def)
  show ?thesis
    using tick_day_rollover [OF d] d unfolding t by simp
qed

text \<open>
  C6 as stated fails: the score and the status remembered for match 101 on 4 May are
  still in the last-known objects after the date check of the first tick on 5 May, and
  after that whole tick.
\<close>

theorem facts_survive_rollover:
  "london_ymd (ex_env ex_fetch_empty 1714899600000) (clock_tick_today (ex_env ex_fetch_empty 1714899600000))
     \<noteq> lastLondonDate ex_sched \<and>
   lastKnownScores (app (tick_rollover (ex_env ex_fetch_empty 1714899600000) ex_sched)) ''101'' = Some (2, 1) \<and>
   lastKnownStatus (app (tick_rollover (ex_env ex_fetch_empty 1714899600000) ex_sched)) ''101''
     = Some (SStr ''LIVE'') \<and>
   lastKnownScores (app (fst (tick (ex_env ex_fetch_empty 1714899600000) ex_sched))) \<noteq> Map.empty \<and>
   lastKnownStatus (app (fst (tick (ex_env ex_fetch_empty 1714899600000) ex_sched))) \<noteq> Map.empty"
proof -
  have a: "app (fst (tick (ex_env ex_fetch_empty 1714899600000) ex_sched))
      = resetDailyState (ex_cached 1714834800000)"
    by (simp add: tick_def Let_def ex_rollover ex_load_next_day tick_finish_app)
  have b: "lastKnownScores (resetDailyState (ex_cached 1714834800000)) ''101'' = Some (2, 1)"
    "lastKnownStatus (resetDailyState (ex_cached 1714834800000)) ''101'' = Some (SStr ''LIVE'')"
    by (simp_all add: resetDailyState_def)
  have c: "lastKnownScores (resetDailyState (ex_cached 1714834800000)) \<noteq> Map.empty"
    "lastKnownStatus (resetDailyState (ex_cached 1714834800000)) \<noteq> Map.empty"
    using b by auto
  show ?thesis
    unfolding a using b c by (simp add: ex_rollover)
qed

end
